theory Spec2Isabelle
  imports Complex_Main
begin

section \<open>Python values used by the coverage evaluation\<close>

text \<open>
  The module \<open>src/core/evaluation/coverage_evaluation.py\<close> is embedded function by
  function. Python strings are \<^typ>\<open>string\<close>; a character stands for its code point, so
  the embedding is exact on text of code points below 256. Python floats that are
  quotients of counts and of the weights 1.5 and 1.0 are exact rationals (\<^typ>\<open>rat\<close>).
  A Python \<open>set\<close> of indices is a duplicate-free list, a \<open>defaultdict(list)\<close> is an
  association list in insertion order, a dictionary key that may be absent is an
  \<open>option\<close> field, and a raised exception is \<open>Inl\<close> of a result sum.
\<close>

datatype py_error = ZeroDivisionError | CollaboratorError

definition newline :: char where
  "newline = CHR 0x0A"

definition whitespace :: "char list" where
  "whitespace = [CHR 0x09, CHR 0x0A, CHR 0x0B, CHR 0x0C, CHR 0x0D,
                 CHR 0x1C, CHR 0x1D, CHR 0x1E, CHR 0x1F, CHR 0x20, CHR 0x85, CHR 0xA0]"

text \<open>The class \<open>\s\<close> of \<open>re\<close> on \<open>str\<close>, which is also what \<open>str.strip()\<close> removes.\<close>

definition is_space :: "char \<Rightarrow> bool" where
  "is_space c = (c \<in> set whitespace)"

text \<open>\<open>str.strip()\<close>\<close>

definition strip :: "string \<Rightarrow> string" where
  "strip s = rev (dropWhile is_space (rev (dropWhile is_space s)))"

text \<open>\<open>str.lower()\<close>, on code points below 256.\<close>

definition lower_char :: "char \<Rightarrow> char" where
  "lower_char c =
     (let n = (of_char c :: nat)
      in if (65 \<le> n \<and> n \<le> 90) \<or> (192 \<le> n \<and> n \<le> 222 \<and> n \<noteq> 215)
         then char_of (n + 32) else c)"

definition lower :: "string \<Rightarrow> string" where
  "lower s = map lower_char s"

text \<open>\<open>re.sub(r'\s+', ' ', s)\<close>: every maximal run of whitespace becomes one space.\<close>

function sub_ws :: "string \<Rightarrow> string" where
  "sub_ws [] = []"
| "sub_ws (c # cs) =
     (if is_space c then CHR 0x20 # sub_ws (dropWhile is_space cs) else c # sub_ws cs)"
  by pat_completeness auto
termination
  by (relation "measure length") (auto simp: length_dropWhile_le less_Suc_eq_le)

text \<open>\<open>s.split('\n')\<close> and \<open>re.split(r'\n', s)\<close>\<close>

fun cons_head :: "char \<Rightarrow> string list \<Rightarrow> string list" where
  "cons_head c [] = [[c]]"
| "cons_head c (x # xs) = (c # x) # xs"

fun split_newline :: "string \<Rightarrow> string list" where
  "split_newline [] = [[]]"
| "split_newline (c # cs) =
     (if c = newline then [] # split_newline cs else cons_head c (split_newline cs))"

text \<open>
  \<open>re.split(r'\n\s*\n', s)\<close>. At a newline, the greedy \<open>\s*\<close> takes the whole run of
  whitespace that follows and backs off to the last newline of that run; there is a match
  if and only if the run holds a newline. \<open>blank_match cs\<close> is the number of characters
  after the first newline that the match consumes.
\<close>

definition blank_match :: "string \<Rightarrow> nat option" where
  "blank_match cs =
     (let ws = takeWhile is_space cs
      in if newline \<in> set ws
         then Some (length ws - length (takeWhile (\<lambda>c. c \<noteq> newline) (rev ws)))
         else None)"

function re_split_blank :: "string \<Rightarrow> string list" where
  "re_split_blank [] = [[]]"
| "re_split_blank (c # cs) =
     (if c = newline
      then (case blank_match cs of
              Some n \<Rightarrow> [] # re_split_blank (drop n cs)
            | None \<Rightarrow> cons_head c (re_split_blank cs))
      else cons_head c (re_split_blank cs))"
  by pat_completeness auto
termination
  by (relation "measure length") auto

definition split_document :: "string \<Rightarrow> nat \<Rightarrow> string list" where
  "split_document content min_length =
     (let paragraphs = [strip p. p \<leftarrow> re_split_blank content, min_length \<le> length (strip p)]
      in if length paragraphs < 5
         then [strip p. p \<leftarrow> split_newline content, min_length \<le> length (strip p)]
         else paragraphs)"

text \<open>\<open>defaultdict(list)\<close>: \<open>d[k].append(v)\<close> and \<open>d.get(k, [])\<close>.\<close>

fun dd_append :: "'k \<Rightarrow> 'v \<Rightarrow> ('k \<times> 'v list) list \<Rightarrow> ('k \<times> 'v list) list" where
  "dd_append k v [] = [(k, [v])]"
| "dd_append k v ((k', l) # d) =
     (if k' = k then (k', l @ [v]) # d else (k', l) # dd_append k v d)"

definition dd_get :: "('k \<times> 'v list) list \<Rightarrow> 'k \<Rightarrow> 'v list" where
  "dd_get d k = (case map_of d k of None \<Rightarrow> [] | Some l \<Rightarrow> l)"

section \<open>Input data and collaborators\<close>

text \<open>
  A QA pair and a topic group are dictionaries read with \<open>.get(key, default)\<close>: each key
  may be absent.
\<close>

record qa =
  question :: "string option"
  answer :: "string option"

record topic_group =
  topic :: "string option"
  qa_pairs :: "qa list option"

text \<open>The topic name: the value of \<open>'topic'\<close>, or the default built from the topic index.\<close>

datatype topic_name = Named string | Unnamed nat

definition get_topic :: "nat \<Rightarrow> topic_group \<Rightarrow> topic_name" where
  "get_topic topic_idx t = (case topic t of None \<Rightarrow> Unnamed topic_idx | Some n \<Rightarrow> Named n)"

definition get_qa_pairs :: "topic_group \<Rightarrow> qa list" where
  "get_qa_pairs t = (case qa_pairs t of None \<Rightarrow> [] | Some qs \<Rightarrow> qs)"

definition get_question :: "qa \<Rightarrow> string" where
  "get_question q = (case question q of None \<Rightarrow> [] | Some s \<Rightarrow> s)"

definition get_answer :: "qa \<Rightarrow> string" where
  "get_answer q = (case answer q of None \<Rightarrow> [] | Some s \<Rightarrow> s)"

text \<open>\<open>qa_text = question + ' ' + answer\<close>\<close>

definition qa_text :: "qa \<Rightarrow> string" where
  "qa_text q = get_question q @ [CHR 0x20] @ get_answer q"

text \<open>
  The library \<open>datasketch\<close> is a collaborator, given as a parameter: \<open>mh_new n\<close> is
  \<open>MinHash(num_perm=n)\<close>, \<open>mh_update\<close> is \<open>MinHash.update\<close> on an encoded token, and
  \<open>lsh_query threshold n inserted sk\<close> is \<open>query(sk)\<close> on a
  \<open>MinHashLSH(threshold, num_perm=n)\<close> into which the pairs of \<open>inserted\<close> were inserted in
  order. The tokenizer of \<open>jieba\<close> is the parameter \<open>jieba_cut\<close>.
\<close>

record 'sk datasketch =
  mh_new :: "nat \<Rightarrow> 'sk"
  mh_update :: "'sk \<Rightarrow> string \<Rightarrow> 'sk"
  lsh_query :: "rat \<Rightarrow> nat \<Rightarrow> (nat \<times> 'sk) list \<Rightarrow> 'sk \<Rightarrow> nat list"

section \<open>Hash evaluation\<close>

record 'sk doc_hash =
  minhash :: 'sk
  dh_content :: string
  dh_length :: nat

text \<open>The loop \<open>mh = MinHash(num_perm); for token in tokens: mh.update(token)\<close>.\<close>

definition sketch_of :: "'sk datasketch \<Rightarrow> nat \<Rightarrow> string list \<Rightarrow> 'sk" where
  "sketch_of D num_perm tokens = foldl (mh_update D) (mh_new D num_perm) tokens"

definition compute_minhash ::
  "'sk datasketch \<Rightarrow> (string \<Rightarrow> string list) \<Rightarrow> string list \<Rightarrow> nat \<Rightarrow> (nat \<times> 'sk doc_hash) list" where
  "compute_minhash D jieba_cut segments num_perm =
     map (\<lambda>(i, segment).
            (i, \<lparr>minhash = sketch_of D num_perm (jieba_cut (sub_ws segment)),
                 dh_content = segment,
                 dh_length = length segment\<rparr>))
         (enumerate 0 segments)"

record 'sk qa_hash =
  qa_minhash :: 'sk
  qh_topic :: topic_name
  qh_question :: string
  qh_answer :: string
  qa_idx :: nat
  topic_idx :: nat

definition compute_qa_minhash ::
  "'sk datasketch \<Rightarrow> (string \<Rightarrow> string list) \<Rightarrow> topic_group list \<Rightarrow> nat \<Rightarrow> 'sk qa_hash list" where
  "compute_qa_minhash D jieba_cut qa_data num_perm =
     concat (map (\<lambda>(t_idx, t).
                    map (\<lambda>(q_idx, q).
                           \<lparr>qa_minhash = sketch_of D num_perm (jieba_cut (sub_ws (qa_text q))),
                            qh_topic = get_topic t_idx t,
                            qh_question = get_question q,
                            qh_answer = get_answer q,
                            qa_idx = q_idx,
                            topic_idx = t_idx\<rparr>)
                        (enumerate 0 (get_qa_pairs t)))
                 (enumerate 0 qa_data))"

text \<open>
  The three accumulators of \<open>compute_lsh_coverage\<close>: the set \<open>covered_paragraphs\<close> and the
  two \<open>defaultdict(list)\<close>.
\<close>

record match_acc =
  covered_paragraphs :: "nat list"
  paragraph_coverage :: "(nat \<times> nat list) list"
  qa_matches :: "(nat \<times> nat list) list"

definition record_match :: "nat \<Rightarrow> match_acc \<Rightarrow> nat \<Rightarrow> match_acc" where
  "record_match q_idx acc para_idx =
     \<lparr>covered_paragraphs = List.insert para_idx (covered_paragraphs acc),
      paragraph_coverage = dd_append para_idx q_idx (paragraph_coverage acc),
      qa_matches = dd_append q_idx para_idx (qa_matches acc)\<rparr>"

text \<open>
  The document key \<open>f"doc_{i}"\<close> is read back with \<open>int(doc_id.split('_')[1])\<close>; the
  round trip is the identity, so the index holds the paragraph numbers themselves.
\<close>

definition lsh_index :: "(nat \<times> 'sk doc_hash) list \<Rightarrow> (nat \<times> 'sk) list" where
  "lsh_index doc_hashes = map (\<lambda>(i, doc_data). (i, minhash doc_data)) doc_hashes"

definition query_loop ::
  "'sk datasketch \<Rightarrow> rat \<Rightarrow> (nat \<times> 'sk doc_hash) list \<Rightarrow> 'sk qa_hash list \<Rightarrow> match_acc" where
  "query_loop D threshold doc_hashes qa_hashes =
     foldl (\<lambda>acc (q_idx, qa_data).
              foldl (record_match q_idx) acc
                    (lsh_query D threshold 128 (lsh_index doc_hashes) (qa_minhash qa_data)))
           \<lparr>covered_paragraphs = [], paragraph_coverage = [], qa_matches = []\<rparr>
           (enumerate 0 qa_hashes)"

record coverage_stats = match_acc +
  total_paragraphs :: nat
  coverage_rate :: rat
  qa_with_match :: nat
  qa_match_rate :: rat

definition compute_lsh_coverage ::
  "'sk datasketch \<Rightarrow> (nat \<times> 'sk doc_hash) list \<Rightarrow> 'sk qa_hash list \<Rightarrow> rat
     \<Rightarrow> py_error + coverage_stats" where
  "compute_lsh_coverage D doc_hashes qa_hashes threshold =
     (let acc = query_loop D threshold doc_hashes qa_hashes
      in if length doc_hashes = 0 then Inl ZeroDivisionError
         else
           let with_match = length [q \<leftarrow> map fst (qa_matches acc). dd_get (qa_matches acc) q \<noteq> []]
           in Inr \<lparr>covered_paragraphs = covered_paragraphs acc,
                   paragraph_coverage = paragraph_coverage acc,
                   qa_matches = qa_matches acc,
                   total_paragraphs = length doc_hashes,
                   coverage_rate =
                     of_nat (length (covered_paragraphs acc)) / of_nat (length doc_hashes),
                   qa_with_match = with_match,
                   qa_match_rate =
                     (if qa_hashes \<noteq> [] then of_nat with_match / of_nat (length qa_hashes)
                      else 0)\<rparr>)"

record paragraph_detail =
  index :: nat
  pd_content :: string
  matched_qa_count :: nat
  matched_qa_indices :: "nat list"

record qa_detail =
  qd_index :: nat
  qd_question :: string
  qd_topic :: topic_name
  matched_paragraphs :: "nat list"

record hash_results =
  hr_coverage_rate :: rat
  hr_covered_paragraphs :: nat
  hr_total_paragraphs :: nat
  hr_qa_with_match :: nat
  hr_qa_match_rate :: rat
  paragraph_details :: "paragraph_detail list"
  qa_details :: "qa_detail list"

text \<open>
  \<open>hash_based_evaluation\<close>. Drawing the heat map and writing the JSON file produce no value
  that the evaluation reads back and are left out; so is the assignment \<open>qa['topic'] = ...\<close>
  on the input dictionaries, which no later step of the evaluation reads.
\<close>

definition hash_based_evaluation ::
  "'sk datasketch \<Rightarrow> (string \<Rightarrow> string list) \<Rightarrow> string \<Rightarrow> topic_group list \<Rightarrow> rat
     \<Rightarrow> py_error + (hash_results \<times> string list \<times> coverage_stats)" where
  "hash_based_evaluation D jieba_cut doc_content qa_data threshold =
     (let segments = split_document doc_content 50;
          doc_hashes = compute_minhash D jieba_cut segments 128;
          qa_hashes = compute_qa_minhash D jieba_cut qa_data 128
      in case compute_lsh_coverage D doc_hashes qa_hashes threshold of
           Inl e \<Rightarrow> Inl e
         | Inr stats \<Rightarrow>
             Inr (\<lparr>hr_coverage_rate = coverage_rate stats,
                   hr_covered_paragraphs = length (covered_paragraphs stats),
                   hr_total_paragraphs = total_paragraphs stats,
                   hr_qa_with_match = qa_with_match stats,
                   hr_qa_match_rate = qa_match_rate stats,
                   paragraph_details =
                     map (\<lambda>(i, segment).
                            \<lparr>index = i,
                             pd_content = take 100 segment @ ''...'',
                             matched_qa_count = length (dd_get (paragraph_coverage stats) i),
                             matched_qa_indices = dd_get (paragraph_coverage stats) i\<rparr>)
                         (enumerate 0 segments),
                   qa_details =
                     map (\<lambda>(i, h).
                            \<lparr>qd_index = i,
                             qd_question = qh_question h,
                             qd_topic = qh_topic h,
                             matched_paragraphs = dd_get (qa_matches stats) i\<rparr>)
                         (enumerate 0 qa_hashes)\<rparr>,
                  segments, stats))"

section \<open>Knowledge points\<close>

text \<open>
  A knowledge point is a dictionary with the keys \<open>'text'\<close>, \<open>'type'\<close> and \<open>'source'\<close>; the
  keys \<open>'paragraph_idx'\<close> and \<open>'priority'\<close> may be absent. The value of \<open>'source'\<close> is
  \<open>'entity'\<close>, \<open>'noun_chunk'\<close> or \<open>f'paragraph_{i}'\<close>.
\<close>

datatype point_source = Entity | Noun_chunk | Paragraph nat

record knowledge_point =
  kp_text :: string
  kp_type :: "string option"
  kp_source :: point_source
  paragraph_idx :: "nat option"
  priority :: "string option"

text \<open>
  What \<open>nlp(content)\<close> of spaCy gives: the entities with their labels and the noun chunks.
\<close>

record nlp_doc =
  ents :: "(string \<times> string) list"
  noun_chunks :: "string list"

definition basic_points :: "nlp_doc \<Rightarrow> knowledge_point list" where
  "basic_points doc =
     map (\<lambda>(t, label).
            \<lparr>kp_text = t, kp_type = Some label, kp_source = Entity,
             paragraph_idx = None, priority = None\<rparr>)
         (ents doc)
     @ map (\<lambda>chunk.
              \<lparr>kp_text = chunk, kp_type = Some ''NOUN_PHRASE'', kp_source = Noun_chunk,
               paragraph_idx = None, priority = None\<rparr>)
           [chunk \<leftarrow> noun_chunks doc. 3 < length (strip chunk)]"

text \<open>
  The lines of the answer of the language model that are kept as knowledge points. The
  source also drops a line that holds the marker of a paragraph without knowledge points;
  the six code points of that marker lie above 255, so no line of this embedding holds it
  and the test \<open>marker not in line\<close> is true of every line.
\<close>

definition result_points :: "string \<Rightarrow> string list" where
  "result_points result =
     [strip line. line \<leftarrow> split_newline result, strip line \<noteq> []]"

text \<open>
  The loop over the paragraphs, inside \<open>try\<close>. The model caller, given the paragraph of the
  prompt, returns the answer or raises; the handler logs the exception, and the points
  appended to \<open>advanced_points\<close> (here \<open>acc\<close>) before it stay.
\<close>

fun llm_loop ::
  "(string \<Rightarrow> py_error + string) \<Rightarrow> (nat \<times> string) list \<Rightarrow> knowledge_point list
     \<Rightarrow> knowledge_point list" where
  "llm_loop call_model [] acc = acc"
| "llm_loop call_model ((i, para) # rest) acc =
     (if length para < 50 then llm_loop call_model rest acc
      else case call_model para of
             Inl e \<Rightarrow> acc
           | Inr result \<Rightarrow>
               llm_loop call_model rest
                 (acc @
                  map (\<lambda>point.
                         \<lparr>kp_text = point, kp_type = Some ''LLM_EXTRACTED'',
                          kp_source = Paragraph i, paragraph_idx = Some i, priority = None\<rparr>)
                      (result_points result)))"

definition normalized_text :: "knowledge_point \<Rightarrow> string" where
  "normalized_text point = sub_ws (lower (kp_text point))"

fun unique_loop ::
  "knowledge_point list \<Rightarrow> string list \<Rightarrow> knowledge_point list \<Rightarrow> knowledge_point list" where
  "unique_loop [] seen_texts unique_points = unique_points"
| "unique_loop (point # all_points) seen_texts unique_points =
     (if normalized_text point \<notin> set seen_texts
      then unique_loop all_points (normalized_text point # seen_texts) (unique_points @ [point])
      else unique_loop all_points seen_texts unique_points)"

definition advanced_points ::
  "(string \<Rightarrow> py_error + string) option \<Rightarrow> string \<Rightarrow> knowledge_point list" where
  "advanced_points model_caller content =
     (case model_caller of
        None \<Rightarrow> []
      | Some call_model \<Rightarrow> llm_loop call_model (enumerate 0 (split_document content 50)) [])"

definition all_points ::
  "(string \<Rightarrow> nlp_doc) \<Rightarrow> (string \<Rightarrow> py_error + string) option \<Rightarrow> string
     \<Rightarrow> knowledge_point list" where
  "all_points nlp model_caller content =
     basic_points (nlp content) @ advanced_points model_caller content"

definition extract_knowledge_points ::
  "(string \<Rightarrow> nlp_doc) \<Rightarrow> (string \<Rightarrow> py_error + string) option \<Rightarrow> string
     \<Rightarrow> knowledge_point list" where
  "extract_knowledge_points nlp model_caller content =
     unique_loop (all_points nlp model_caller content) [] []"

definition low_coverage_paragraphs :: "hash_results \<Rightarrow> nat list" where
  "low_coverage_paragraphs hr = [index p. p \<leftarrow> paragraph_details hr, matched_qa_count p = 0]"

definition assign_priority :: "nat list \<Rightarrow> knowledge_point \<Rightarrow> knowledge_point" where
  "assign_priority low point =
     (if (case paragraph_idx point of None \<Rightarrow> False | Some i \<Rightarrow> i \<in> set low)
      then point\<lparr>priority := Some ''high''\<rparr>
      else point\<lparr>priority := Some ''normal''\<rparr>)"

text \<open>
  \<open>sorted(..., key=...)\<close> of Python is stable; so is \<^const>\<open>sort_key\<close>, which inserts each
  element before the first one whose key is not smaller.
\<close>

definition prioritize_knowledge_points ::
  "knowledge_point list \<Rightarrow> hash_results \<Rightarrow> knowledge_point list" where
  "prioritize_knowledge_points knowledge_points hr =
     sort_key (\<lambda>x. if priority x = Some ''high'' then 0 else (1::nat))
       (map (assign_priority (low_coverage_paragraphs hr)) knowledge_points)"

section \<open>Mapping QA pairs to knowledge points\<close>

text \<open>
  The QA identifier \<open>f"{topic_idx}_{qa_idx}"\<close> is the pair of the two indices. The
  similarity of spaCy, \<open>nlp(a).similarity(nlp(b))\<close>, is the parameter \<open>similarity\<close>.
\<close>

record matched_point =
  knowledge_idx :: nat
  knowledge_text :: string
  mp_similarity :: rat
  mp_priority :: string

record coverage_entry =
  qa_id :: "nat \<times> nat"
  ce_similarity :: rat

record mapping =
  m_qa_id :: "nat \<times> nat"
  m_topic :: topic_name
  m_question :: string
  m_answer :: string
  matched_points :: "matched_point list"

record mapping_results =
  mappings :: "mapping list"
  knowledge_coverage :: "(nat \<times> coverage_entry list) list"
  qa_knowledge_points :: "((nat \<times> nat) \<times> nat list) list"

definition text_similarity :: "(string \<Rightarrow> string \<Rightarrow> rat) \<Rightarrow> string \<Rightarrow> string \<Rightarrow> rat" where
  "text_similarity similarity text1 text2 = similarity (lower text1) (lower text2)"

definition get_priority :: "knowledge_point \<Rightarrow> string" where
  "get_priority point = (case priority point of None \<Rightarrow> ''normal'' | Some p \<Rightarrow> p)"

text \<open>\<open>d[k] = v\<close> on a dictionary in insertion order.\<close>

fun dict_set :: "'k \<Rightarrow> 'v \<Rightarrow> ('k \<times> 'v) list \<Rightarrow> ('k \<times> 'v) list" where
  "dict_set k v [] = [(k, v)]"
| "dict_set k v ((k', v') # d) = (if k' = k then (k', v) # d else (k', v') # dict_set k v d)"

text \<open>The body of the loop over the knowledge points, for one QA pair.\<close>

definition match_point ::
  "(string \<Rightarrow> string \<Rightarrow> rat) \<Rightarrow> nat \<times> nat \<Rightarrow> string
     \<Rightarrow> matched_point list \<times> (nat \<times> coverage_entry list) list \<Rightarrow> nat \<times> knowledge_point
     \<Rightarrow> matched_point list \<times> (nat \<times> coverage_entry list) list" where
  "match_point similarity qid text acc kp =
     (let s = text_similarity similarity text (kp_text (snd kp))
      in if s > 1 / 2
         then (fst acc @ [\<lparr>knowledge_idx = fst kp, knowledge_text = kp_text (snd kp),
                           mp_similarity = s, mp_priority = get_priority (snd kp)\<rparr>],
               dd_append (fst kp) \<lparr>qa_id = qid, ce_similarity = s\<rparr> (snd acc))
         else acc)"

text \<open>The body of the loop over the QA pairs of one topic.\<close>

definition map_qa ::
  "(string \<Rightarrow> string \<Rightarrow> rat) \<Rightarrow> knowledge_point list \<Rightarrow> nat \<Rightarrow> topic_name
     \<Rightarrow> mapping_results \<Rightarrow> nat \<times> qa \<Rightarrow> mapping_results" where
  "map_qa similarity knowledge_points t_idx topic_name res iq =
     (let qid = (t_idx, fst iq);
          acc = foldl (match_point similarity qid (qa_text (snd iq)))
                      ([], knowledge_coverage res) (enumerate 0 knowledge_points)
      in \<lparr>mappings = mappings res @
                       [\<lparr>m_qa_id = qid, m_topic = topic_name,
                         m_question = get_question (snd iq),
                         m_answer = take 100 (get_answer (snd iq)) @ ''...'',
                         matched_points = fst acc\<rparr>],
          knowledge_coverage = snd acc,
          qa_knowledge_points =
            dict_set qid (map knowledge_idx (fst acc)) (qa_knowledge_points res)\<rparr>)"

definition map_topic ::
  "(string \<Rightarrow> string \<Rightarrow> rat) \<Rightarrow> knowledge_point list \<Rightarrow> mapping_results
     \<Rightarrow> nat \<times> topic_group \<Rightarrow> mapping_results" where
  "map_topic similarity knowledge_points res it =
     foldl (map_qa similarity knowledge_points (fst it) (get_topic (fst it) (snd it)))
           res (enumerate 0 (get_qa_pairs (snd it)))"

definition map_qa_to_knowledge ::
  "(string \<Rightarrow> string \<Rightarrow> rat) \<Rightarrow> topic_group list \<Rightarrow> knowledge_point list \<Rightarrow> mapping_results" where
  "map_qa_to_knowledge similarity qa_data knowledge_points =
     foldl (map_topic similarity knowledge_points)
           \<lparr>mappings = [], knowledge_coverage = [], qa_knowledge_points = []\<rparr>
           (enumerate 0 qa_data)"

section \<open>Weighted coverage and gaps\<close>

definition point_weight :: "knowledge_point \<Rightarrow> rat" where
  "point_weight point = (if priority point = Some ''high'' then 3 / 2 else 1)"

definition knowledge_weights :: "knowledge_point list \<Rightarrow> (nat \<times> rat) list" where
  "knowledge_weights knowledge_points =
     map (\<lambda>(i, point). (i, point_weight point)) (enumerate 0 knowledge_points)"

text \<open>\<open>knowledge_weights.get(k_idx, 1.0)\<close>\<close>

definition get_weight :: "(nat \<times> rat) list \<Rightarrow> nat \<Rightarrow> rat" where
  "get_weight weights k = (case map_of weights k of None \<Rightarrow> 1 | Some w \<Rightarrow> w)"

text \<open>\<open>topic_coverage[topic].add(k)\<close> on a \<open>defaultdict(set)\<close>.\<close>

fun dd_add :: "'k \<Rightarrow> 'v \<Rightarrow> ('k \<times> 'v list) list \<Rightarrow> ('k \<times> 'v list) list" where
  "dd_add k v [] = [(k, [v])]"
| "dd_add k v ((k', l) # d) =
     (if k' = k then (k', List.insert v l) # d else (k', l) # dd_add k v d)"

record topic_stats =
  ts_covered_points :: nat
  ts_coverage_rate :: rat

record knowledge_stats =
  simple_coverage :: rat
  weighted_coverage :: rat
  covered_points :: nat
  total_points :: nat
  topic_coverage :: "(topic_name \<times> topic_stats) list"

definition calculate_weighted_coverage ::
  "mapping_results \<Rightarrow> knowledge_point list \<Rightarrow> knowledge_stats" where
  "calculate_weighted_coverage res knowledge_points =
     (let weights = knowledge_weights knowledge_points;
          total_weight = sum_list (map snd weights);
          covered = foldl (\<lambda>acc k_idx. (List.insert k_idx (fst acc), snd acc + get_weight weights k_idx))
                          ([], 0) (map fst (knowledge_coverage res));
          topics = foldl (\<lambda>tc m. foldl (\<lambda>tc' point. dd_add (m_topic m) (knowledge_idx point) tc')
                                        tc (matched_points m))
                         [] (mappings res)
      in \<lparr>simple_coverage =
            (if knowledge_points \<noteq> []
             then of_nat (length (fst covered)) / of_nat (length knowledge_points) else 0),
          weighted_coverage = (if total_weight > 0 then snd covered / total_weight else 0),
          covered_points = length (fst covered),
          total_points = length knowledge_points,
          topic_coverage =
            map (\<lambda>(t, points).
                   (t, \<lparr>ts_covered_points = length points,
                        ts_coverage_rate =
                          (if knowledge_points \<noteq> []
                           then of_nat (length points) / of_nat (length knowledge_points)
                           else 0)\<rparr>))
                topics\<rparr>)"

record gap =
  gap_index :: nat
  gap_text :: string
  gap_type :: string
  gap_priority :: string

record knowledge_gaps =
  all_gaps :: "gap list"
  high_priority_gaps :: "gap list"
  gap_count :: nat
  high_priority_gap_count :: nat

definition uncovered_points :: "mapping_results \<Rightarrow> knowledge_point list \<Rightarrow> gap list" where
  "uncovered_points res knowledge_points =
     [\<lparr>gap_index = i, gap_text = kp_text point,
       gap_type = (case kp_type point of None \<Rightarrow> ''UNKNOWN'' | Some t \<Rightarrow> t),
       gap_priority = get_priority point\<rparr>.
      (i, point) \<leftarrow> enumerate 0 knowledge_points, i \<notin> fst ` set (knowledge_coverage res)]"

definition identify_knowledge_gaps ::
  "mapping_results \<Rightarrow> knowledge_point list \<Rightarrow> knowledge_gaps" where
  "identify_knowledge_gaps res knowledge_points =
     (let sorted_gaps = sort_key (\<lambda>x. if gap_priority x = ''high'' then 0 else (1::nat))
                                 (uncovered_points res knowledge_points);
          high = [p \<leftarrow> sorted_gaps. gap_priority p = ''high'']
      in \<lparr>all_gaps = sorted_gaps, high_priority_gaps = high,
          gap_count = length sorted_gaps, high_priority_gap_count = length high\<rparr>)"

text \<open>
  \<open>knowledge_mapping_evaluation\<close>, without the files it writes: the prioritized points, the
  coverage statistics and the gaps.
\<close>

definition knowledge_mapping_evaluation ::
  "(string \<Rightarrow> string \<Rightarrow> rat) \<Rightarrow> topic_group list \<Rightarrow> knowledge_point list \<Rightarrow> hash_results
     \<Rightarrow> knowledge_point list \<times> knowledge_stats \<times> knowledge_gaps" where
  "knowledge_mapping_evaluation similarity qa_data knowledge_points hr =
     (let prioritized_points = prioritize_knowledge_points knowledge_points hr;
          res = map_qa_to_knowledge similarity qa_data prioritized_points
      in (prioritized_points,
          calculate_weighted_coverage res prioritized_points,
          identify_knowledge_gaps res prioritized_points))"

section \<open>A sketch builder and a banded index\<close>

text \<open>
  Modelled from the spec: the library \<open>datasketch\<close> (the classes \<open>MinHash\<close> and
  \<open>MinHashLSH\<close>) is not among the sources. Sections 4.1 and 4.2 of the specification say:
  a sketch holds, for each of \<open>numHashes\<close> hash functions, the minimum hash value over all
  tokens, and a sentinel maximum where there is no token; the index partitions the
  components into bands, and a query returns the inserted ids of which some band equals
  the same band of the query. \<open>h i\<close> is the \<open>i\<close>-th hash function, \<open>mx\<close> the sentinel,
  \<open>b\<close> the number of bands and \<open>r\<close> their width. The code passes every sketch to the query
  as it is, so this index has no other test than the bands.
\<close>

definition band :: "nat \<Rightarrow> nat \<Rightarrow> nat list \<Rightarrow> nat list" where
  "band r j s = take r (drop (j * r) s)"

definition band_match :: "nat \<Rightarrow> nat \<Rightarrow> nat list \<Rightarrow> nat list \<Rightarrow> bool" where
  "band_match b r s t = list_ex (\<lambda>j. band r j s = band r j t) [0..<b]"

definition banded_minhash ::
  "(nat \<Rightarrow> string \<Rightarrow> nat) \<Rightarrow> nat \<Rightarrow> nat \<Rightarrow> nat \<Rightarrow> (nat list) datasketch" where
  "banded_minhash h mx b r =
     \<lparr>mh_new = (\<lambda>n. replicate n mx),
      mh_update = (\<lambda>sk token. map (\<lambda>(i, v). min v (h i token)) (enumerate 0 sk)),
      lsh_query = (\<lambda>threshold n inserted sk. [k. (k, s) \<leftarrow> inserted, band_match b r s sk])\<rparr>"

text \<open>
  Concrete collaborators for evaluating the functions on examples: a tokenizer that splits
  at spaces and drops empty tokens, a family of hash functions with values below 251, the
  sentinel 255, 32 bands of width 4, and a similarity that is 1 on equal texts and 0 otherwise.
\<close>

fun word_cut_aux :: "string \<Rightarrow> string \<Rightarrow> string list" where
  "word_cut_aux w [] = (if w = [] then [] else [w])"
| "word_cut_aux w (c # cs) =
     (if c = CHR 0x20 then (if w = [] then [] else [w]) @ word_cut_aux [] cs
      else word_cut_aux (w @ [c]) cs)"

definition word_cut :: "string \<Rightarrow> string list" where
  "word_cut s = word_cut_aux [] s"

definition demo_hash :: "nat \<Rightarrow> string \<Rightarrow> nat" where
  "demo_hash i token = (sum_list (map of_char token) * (2 * i + 1) + i) mod 251"

definition demo_sketch :: "(nat list) datasketch" where
  "demo_sketch = banded_minhash demo_hash 255 32 4"

definition exact_similarity :: "string \<Rightarrow> string \<Rightarrow> rat" where
  "exact_similarity a b = (if a = b then 1 else 0)"

text \<open>
  The points that \<open>unique_loop\<close> appends, as a function of the texts seen so far.
\<close>

fun first_seen :: "string list \<Rightarrow> knowledge_point list \<Rightarrow> knowledge_point list" where
  "first_seen seen [] = []"
| "first_seen seen (p # ps) =
     (if normalized_text p \<in> set seen then first_seen seen ps
      else p # first_seen (normalized_text p # seen) ps)"

section \<open>The QA pairs as one list\<close>

text \<open>
  The two nested loops over the topics and their QA pairs visit the QA pairs in the order
  of this list, each with its identifier and topic name; \<open>map_unit\<close> is the body of the
  inner loop on one element, and \<open>matches\<close> the test of the mapping.
\<close>

definition qa_units :: "topic_group list \<Rightarrow> ((nat \<times> nat) \<times> topic_name \<times> qa) list" where
  "qa_units qa_data =
     concat (map (\<lambda>(t_idx, t).
                    map (\<lambda>(q_idx, q). ((t_idx, q_idx), get_topic t_idx t, q))
                        (enumerate 0 (get_qa_pairs t)))
                 (enumerate 0 qa_data))"

definition qa_texts :: "topic_group list \<Rightarrow> string list" where
  "qa_texts qa_data = map (\<lambda>u. qa_text (snd (snd u))) (qa_units qa_data)"

definition map_unit ::
  "(string \<Rightarrow> string \<Rightarrow> rat) \<Rightarrow> knowledge_point list \<Rightarrow> mapping_results
     \<Rightarrow> (nat \<times> nat) \<times> topic_name \<times> qa \<Rightarrow> mapping_results" where
  "map_unit similarity kps res u =
     map_qa similarity kps (fst (fst u)) (fst (snd u)) res (snd (fst u), snd (snd u))"

definition matches :: "(string \<Rightarrow> string \<Rightarrow> rat) \<Rightarrow> string \<Rightarrow> knowledge_point \<Rightarrow> bool" where
  "matches similarity text point = (1 / 2 < text_similarity similarity text (kp_text point))"

section \<open>Example data\<close>

text \<open>
  A document of one paragraph, the answers of the collaborators on it, and the hash results
  in which that paragraph has no matched QA pair.
\<close>

definition demo_document :: string where
  "demo_document = ''Acme counts its stock weekly and ships all orders by rail.''"

definition demo_nlp :: "string \<Rightarrow> nlp_doc" where
  "demo_nlp content =
     \<lparr>ents = [(''Acme'', ''ORG'')],
      noun_chunks = [''ACME'', ''its stock'', ''Its'' @ [CHR 0x09] @ '' STOCK'', ''all'']\<rparr>"

definition demo_model :: "string \<Rightarrow> py_error + string" where
  "demo_model para =
     Inr (''Orders  ship by rail'' @ [newline] @ ''  acme '' @ [newline]
          @ ''orders ship   by rail'' @ [newline])"

definition demo_hash_results :: hash_results where
  "demo_hash_results =
     \<lparr>hr_coverage_rate = 0, hr_covered_paragraphs = 0, hr_total_paragraphs = 1,
      hr_qa_with_match = 0, hr_qa_match_rate = 0,
      paragraph_details =
        [\<lparr>index = 0, pd_content = ''Acme...'', matched_qa_count = 0, matched_qa_indices = []\<rparr>],
      qa_details = []\<rparr>"

definition demo_entity :: knowledge_point where
  "demo_entity = \<lparr>kp_text = ''Acme'', kp_type = Some ''ORG'', kp_source = Entity,
                  paragraph_idx = None, priority = None\<rparr>"

definition demo_chunk :: knowledge_point where
  "demo_chunk = \<lparr>kp_text = ''its stock'', kp_type = Some ''NOUN_PHRASE'', kp_source = Noun_chunk,
                 paragraph_idx = None, priority = None\<rparr>"

definition demo_extracted :: knowledge_point where
  "demo_extracted = \<lparr>kp_text = ''Orders  ship by rail'', kp_type = Some ''LLM_EXTRACTED'',
                     kp_source = Paragraph 0, paragraph_idx = Some 0, priority = None\<rparr>"

definition demo_prioritized :: "knowledge_point list" where
  "demo_prioritized =
     [demo_extracted\<lparr>priority := Some ''high''\<rparr>,
      demo_entity\<lparr>priority := Some ''normal''\<rparr>,
      demo_chunk\<lparr>priority := Some ''normal''\<rparr>]"

definition demo_qa_data :: "topic_group list" where
  "demo_qa_data =
     [\<lparr>topic = Some ''stock'',
       qa_pairs = Some [\<lparr>question = Some ''Its'', answer = Some ''stock''\<rparr>]\<rparr>]"

definition demo_mapping :: mapping_results where
  "demo_mapping = map_qa_to_knowledge exact_similarity demo_qa_data demo_prioritized"



definition demo_qa_data_partial :: "topic_group list" where
  "demo_qa_data_partial =
     [\<lparr>topic = Some ''stock'',
       qa_pairs = Some [\<lparr>question = None, answer = Some ''weekly''\<rparr>]\<rparr>]"


section \<open>Properties of the hash evaluation\<close>

lemma split_document_empty: "split_document [] n = (if n = 0 then [[]] else [])"
  by (simp add: split_document_def strip_def)

lemma compute_lsh_coverage_no_docs:
  "compute_lsh_coverage D [] qa_hashes threshold = Inl ZeroDivisionError"
  by (simp add: compute_lsh_coverage_def Let_def)

text \<open>
  Claim C1. With zero segments the lexical analysis should return all rates as 0. The
  quotient \<open>len(covered_paragraphs) / len(doc_hashes)\<close> has no guard, unlike
  \<open>qa_match_rate\<close> two lines below it: on the empty document, which splits into zero
  segments, the evaluation raises \<open>ZeroDivisionError\<close>, whatever the QA data are.
\<close>

theorem hash_based_evaluation_empty_document:
  "hash_based_evaluation D jieba_cut [] qa_data threshold = Inl ZeroDivisionError"
  by (simp add: hash_based_evaluation_def Let_def split_document_empty compute_minhash_def
        compute_lsh_coverage_no_docs)

section \<open>Stable sorting into two tiers\<close>

lemma insort_key_after:
  "\<forall>a \<in> set as. f a < f x \<Longrightarrow> insort_key f x (as @ bs) = as @ insort_key f x bs"
  by (induction as) auto

lemma insort_key_front:
  "\<forall>b \<in> set bs. f x \<le> f b \<Longrightarrow> insort_key f x bs = x # bs"
  by (cases bs) auto

lemma sort_key_two_tiers:
  "sort_key (\<lambda>x. if P x then 0 else (1::nat)) xs = filter P xs @ filter (\<lambda>x. \<not> P x) xs"
proof (induction xs)
  case Nil
  show ?case by simp
next
  case (Cons x xs)
  let ?f = "\<lambda>x. if P x then 0 else (1::nat)"
  show ?case
  proof (cases "P x")
    case True
    then have "insort_key ?f x (filter P xs @ filter (\<lambda>x. \<not> P x) xs)
                 = x # filter P xs @ filter (\<lambda>x. \<not> P x) xs"
      by (intro insort_key_front) simp
    with True Cons show ?thesis by simp
  next
    case False
    then have "insort_key ?f x (filter P xs @ filter (\<lambda>x. \<not> P x) xs)
                 = filter P xs @ insort_key ?f x (filter (\<lambda>x. \<not> P x) xs)"
      by (intro insort_key_after) simp
    moreover have "insort_key ?f x (filter (\<lambda>x. \<not> P x) xs) = x # filter (\<lambda>x. \<not> P x) xs"
      by (intro insort_key_front) simp
    ultimately show ?thesis using False Cons by simp
  qed
qed

section \<open>Prioritization and gaps\<close>

lemma enumerate_nth: "enumerate n xs = map (\<lambda>i. (n + i, xs ! i)) [0..<length xs]"
  by (rule nth_equalityI) (simp_all add: nth_enumerate_eq)

lemma concat_map_if:
  "concat (map (\<lambda>x. if P x then [g x] else []) xs) = map g (filter P xs)"
  by (induction xs) auto

lemma set_low_coverage_paragraphs:
  "set (low_coverage_paragraphs hr)
     = {index d | d. d \<in> set (paragraph_details hr) \<and> matched_qa_count d = 0}"
  by (auto simp: low_coverage_paragraphs_def)

lemma assign_priority_eq:
  "assign_priority low p =
     p\<lparr>priority := Some (if (\<exists>i. paragraph_idx p = Some i \<and> i \<in> set low)
                          then ''high'' else ''normal'')\<rparr>"
  by (cases "paragraph_idx p") (auto simp: assign_priority_def)

lemma priority_assign_priority:
  "priority (assign_priority low p) = Some ''high'' \<or> priority (assign_priority low p) = Some ''normal''"
  by (simp add: assign_priority_eq)

lemma prioritize_two_tiers:
  "prioritize_knowledge_points kps hr =
     [p \<leftarrow> map (assign_priority (low_coverage_paragraphs hr)) kps. priority p = Some ''high'']
     @ [p \<leftarrow> map (assign_priority (low_coverage_paragraphs hr)) kps. priority p = Some ''normal'']"
proof -
  have "[p \<leftarrow> map (assign_priority (low_coverage_paragraphs hr)) kps. priority p \<noteq> Some ''high'']
        = [p \<leftarrow> map (assign_priority (low_coverage_paragraphs hr)) kps. priority p = Some ''normal'']"
    by (rule filter_cong[OF refl]) (auto simp: assign_priority_eq)
  then show ?thesis
    by (simp add: prioritize_knowledge_points_def sort_key_two_tiers)
qed

text \<open>
  Claim C4. The prioritizer sets the priority of a point to \<open>'high'\<close> exactly when the
  point has a paragraph index that is among the paragraphs without a matched QA pair, and
  to \<open>'normal'\<close> otherwise, and changes nothing else of the point; its result is the
  high points in their input order followed by the normal points in their input order.
\<close>

theorem prioritize_stable_partition:
  "prioritize_knowledge_points kps hr =
     [p \<leftarrow> map (assign_priority (low_coverage_paragraphs hr)) kps. priority p = Some ''high'']
     @ [p \<leftarrow> map (assign_priority (low_coverage_paragraphs hr)) kps. priority p = Some ''normal'']
   \<and> map (assign_priority (low_coverage_paragraphs hr)) kps =
       map (\<lambda>p. p\<lparr>priority :=
                     Some (if (\<exists>i. paragraph_idx p = Some i \<and> i \<in> set (low_coverage_paragraphs hr))
                           then ''high'' else ''normal'')\<rparr>) kps
   \<and> set (low_coverage_paragraphs hr)
       = {index d | d. d \<in> set (paragraph_details hr) \<and> matched_qa_count d = 0}"
  using prioritize_two_tiers[of kps hr] set_low_coverage_paragraphs[of hr]
  by (simp add: assign_priority_eq)

lemma uncovered_points_eq:
  "uncovered_points res kps =
     map (\<lambda>i. \<lparr>gap_index = i, gap_text = kp_text (kps ! i),
               gap_type = (case kp_type (kps ! i) of None \<Rightarrow> ''UNKNOWN'' | Some t \<Rightarrow> t),
               gap_priority = get_priority (kps ! i)\<rparr>)
         [i \<leftarrow> [0..<length kps]. i \<notin> fst ` set (knowledge_coverage res)]"
  unfolding uncovered_points_def enumerate_nth
  by (simp add: map_concat comp_def concat_map_if filter_map)

lemma dd_get_empty_iff:
  assumes "[] \<notin> snd ` set d"
  shows "dd_get d k = [] \<longleftrightarrow> k \<notin> fst ` set d"
proof (cases "map_of d k")
  case None
  then have "k \<notin> fst ` set d" by (simp add: map_of_eq_None_iff)
  with None show ?thesis by (simp add: dd_get_def)
next
  case (Some l)
  then have "(k, l) \<in> set d" by (rule map_of_SomeD)
  with assms have "l \<noteq> []" and "k \<in> fst ` set d" by force+
  with Some show ?thesis by (simp add: dd_get_def)
qed

text \<open>
  Claim C8. For a coverage map without empty entries, the gap list is made of exactly the
  knowledge points with no mapped QA pair, each with its index, text, type and priority;
  the gaps of priority \<open>'high'\<close> come first, and within each tier the order of the
  prioritized input list is kept.
\<close>

theorem gaps_are_uncovered_points_high_first:
  assumes "[] \<notin> snd ` set (knowledge_coverage res)"
  shows "all_gaps (identify_knowledge_gaps res kps) =
           [g \<leftarrow> map (\<lambda>i. \<lparr>gap_index = i, gap_text = kp_text (kps ! i),
                            gap_type = (case kp_type (kps ! i) of None \<Rightarrow> ''UNKNOWN'' | Some t \<Rightarrow> t),
                            gap_priority = get_priority (kps ! i)\<rparr>)
                     [i \<leftarrow> [0..<length kps]. dd_get (knowledge_coverage res) i = []].
            gap_priority g = ''high'']
           @
           [g \<leftarrow> map (\<lambda>i. \<lparr>gap_index = i, gap_text = kp_text (kps ! i),
                            gap_type = (case kp_type (kps ! i) of None \<Rightarrow> ''UNKNOWN'' | Some t \<Rightarrow> t),
                            gap_priority = get_priority (kps ! i)\<rparr>)
                     [i \<leftarrow> [0..<length kps]. dd_get (knowledge_coverage res) i = []].
            gap_priority g \<noteq> ''high'']"
  by (simp add: identify_knowledge_gaps_def Let_def sort_key_two_tiers uncovered_points_eq
        dd_get_empty_iff[OF assms])

section \<open>Deduplication of knowledge points\<close>

lemma unique_loop_first_seen: "unique_loop ps seen acc = acc @ first_seen seen ps"
  by (induction ps arbitrary: seen acc) auto

lemma upt_0_Suc_map: "[0..<Suc n] = 0 # map Suc [0..<n]"
  by (simp add: upt_conv_Cons map_Suc_upt del: upt_Suc)

lemma filter_upt_Suc_shift:
  "filter Q [0..<Suc n] = (if Q 0 then [0] else []) @ map Suc (filter (\<lambda>i. Q (Suc i)) [0..<n])"
  by (simp add: upt_0_Suc_map filter_map comp_def del: upt_Suc)

lemma first_seen_nth:
  "first_seen seen ps =
     map (\<lambda>i. ps ! i)
         [i \<leftarrow> [0..<length ps].
            normalized_text (ps ! i) \<notin> set seen \<union> normalized_text ` set (take i ps)]"
proof (induction ps arbitrary: seen)
  case Nil
  show ?case by simp
next
  case (Cons p ps)
  let ?Q = "\<lambda>i. normalized_text ((p # ps) ! i)
                  \<notin> set seen \<union> normalized_text ` set (take i (p # ps))"
  let ?R = "\<lambda>sn i. normalized_text (ps ! i) \<notin> set sn \<union> normalized_text ` set (take i ps)"
  have Q0: "?Q 0 \<longleftrightarrow> normalized_text p \<notin> set seen" by simp
  have QS: "?Q (Suc i) \<longleftrightarrow> ?R (normalized_text p # seen) i" for i by simp
  have nth_shift: "map (\<lambda>i. (p # ps) ! i) (map Suc xs) = map (\<lambda>i. ps ! i) xs" for xs
    by simp
  have rhs: "map (\<lambda>i. (p # ps) ! i) [i \<leftarrow> [0..<length (p # ps)]. ?Q i] =
          (if normalized_text p \<notin> set seen then [p] else [])
          @ map (\<lambda>i. ps ! i) [i \<leftarrow> [0..<length ps]. ?R (normalized_text p # seen) i]"
    unfolding length_Cons filter_upt_Suc_shift map_append nth_shift by (auto intro!: filter_cong)
  show ?case
  proof (cases "normalized_text p \<in> set seen")
    case True
    then have "set (normalized_text p # seen) = set seen" by auto
    then have "?R (normalized_text p # seen) = ?R seen" by simp
    with True Cons[of seen] show ?thesis unfolding rhs by simp
  next
    case False
    with Cons[of "normalized_text p # seen"] show ?thesis unfolding rhs by simp
  qed
qed

lemma first_seen_fresh:
  "p \<in> set (first_seen seen ps) \<Longrightarrow> normalized_text p \<notin> set seen"
proof (induction ps arbitrary: seen)
  case Nil
  then show ?case by simp
next
  case (Cons a ps)
  show ?case
  proof (cases "normalized_text a \<in> set seen")
    case True
    with Cons show ?thesis by simp
  next
    case False
    with Cons.prems have "p = a \<or> p \<in> set (first_seen (normalized_text a # seen) ps)"
      by simp
    then show ?thesis
    proof
      assume "p = a"
      with False show ?thesis by simp
    next
      assume "p \<in> set (first_seen (normalized_text a # seen) ps)"
      then have "normalized_text p \<notin> set (normalized_text a # seen)" by (rule Cons.IH)
      then show ?thesis by simp
    qed
  qed
qed

lemma first_seen_distinct: "distinct (map normalized_text (first_seen seen ps))"
proof (induction ps arbitrary: seen)
  case Nil
  show ?case by simp
next
  case (Cons a ps)
  have "normalized_text a \<notin> normalized_text ` set (first_seen (normalized_text a # seen) ps)"
    using first_seen_fresh[of _ "normalized_text a # seen" ps] by fastforce
  with Cons show ?case by simp
qed

lemma set_first_seen: "set (first_seen seen ps) \<subseteq> set ps"
  by (induction ps arbitrary: seen) auto

subsection \<open>The normalized text\<close>

lemma sub_ws_no_space: "\<forall>c \<in> set s. \<not> is_space c \<Longrightarrow> sub_ws s = s"
  by (induction s) auto

lemma dropWhile_self: "v = [] \<or> \<not> P (hd v) \<Longrightarrow> dropWhile P v = v"
  by (cases v) auto

lemma sub_ws_run:
  assumes "ws \<noteq> []" and "\<forall>c \<in> set ws. is_space c" and "v = [] \<or> \<not> is_space (hd v)"
  shows "sub_ws (ws @ v) = CHR 0x20 # sub_ws v"
proof -
  from assms(1) obtain w ws' where ws: "ws = w # ws'" by (cases ws) auto
  with assms(2) have w: "is_space w" and r: "\<And>x. x \<in> set ws' \<Longrightarrow> is_space x" by auto
  have "dropWhile is_space (ws' @ v) = dropWhile is_space v"
    using r by (rule dropWhile_append2)
  also have "\<dots> = v" using assms(3) by (rule dropWhile_self)
  finally show ?thesis using w by (simp add: ws)
qed

lemma sub_ws_append:
  "u = [] \<or> \<not> is_space (last u) \<Longrightarrow> sub_ws (u @ v) = sub_ws u @ sub_ws v"
proof (induction u rule: sub_ws.induct)
  case 1
  show ?case by simp
next
  case (2 c cs)
  show ?case
  proof (cases "is_space c")
    case False
    show ?thesis
    proof (cases "cs = []")
      case True
      with False show ?thesis by simp
    next
      case ne: False
      with "2.prems" have "cs = [] \<or> \<not> is_space (last cs)" by simp
      with "2.IH"(2)[OF False] False show ?thesis by simp
    qed
  next
    case True
    with "2.prems" have ne: "cs \<noteq> []" and l: "\<not> is_space (last cs)" by (auto split: if_splits)
    from ne have m: "last cs \<in> set cs" by simp
    with l have ex: "\<exists>x \<in> set cs. \<not> is_space x" by blast
    from m l have d: "dropWhile is_space (cs @ v) = dropWhile is_space cs @ v"
      by (rule dropWhile_append1)
    from ex have dne: "dropWhile is_space cs \<noteq> []" by (simp add: dropWhile_eq_Nil_conv)
    have "cs = takeWhile is_space cs @ dropWhile is_space cs" by simp
    then have "last cs = last (takeWhile is_space cs @ dropWhile is_space cs)" by simp
    also have "\<dots> = last (dropWhile is_space cs)" using dne by (rule last_appendR)
    finally have "\<not> is_space (last (dropWhile is_space cs))" using l by simp
    with "2.IH"(1)[OF True]
    have "sub_ws (dropWhile is_space cs @ v) = sub_ws (dropWhile is_space cs) @ sub_ws v" by simp
    with True d show ?thesis by simp
  qed
qed

lemma sub_ws_collapse:
  assumes "ws \<noteq> []" and "\<forall>c \<in> set ws. is_space c"
      and "u = [] \<or> \<not> is_space (last u)" and "v = [] \<or> \<not> is_space (hd v)"
  shows "sub_ws (u @ ws @ v) = sub_ws u @ CHR 0x20 # sub_ws v"
  using sub_ws_append[OF assms(3), of "ws @ v"] sub_ws_run[OF assms(1,2,4)] by simp

lemma of_char_lower_char:
  "(of_char (lower_char c) :: nat) =
     (if (65 \<le> (of_char c :: nat) \<and> (of_char c :: nat) \<le> 90)
         \<or> (192 \<le> (of_char c :: nat) \<and> (of_char c :: nat) \<le> 222 \<and> (of_char c :: nat) \<noteq> 215)
      then of_char c + 32 else of_char c)"
  by (auto simp: lower_char_def Let_def)

lemma is_space_code_points:
  "is_space c = ((of_char c :: nat) \<in> {9, 10, 11, 12, 13, 28, 29, 30, 31, 32, 133, 160})"
proof -
  have e: "(c = d) = ((of_char c :: nat) = of_char d)" for d by simp
  show ?thesis
    unfolding is_space_def whitespace_def
    by (simp add: e)
qed

text \<open>
  Claim C5. The extracted list holds no two points with the same normalized text, and it
  is made of exactly the points of the combined list whose normalized text does not occur
  earlier in that list, in their order and unchanged, hence with their own source
  paragraph. The normalized text of a point is its text in lower case with every run of
  whitespace collapsed: a text without whitespace is left as it is, a non-empty run of
  whitespace between two parts that do not touch it with whitespace becomes one space
  between the collapsed parts, lower case acts on each character, moving the upper-case
  letters (code points 65 to 90, and 192 to 222 except 215) up by 32 and leaving every
  other character, and whitespace is the code points 9 to 13, 28 to 32, 133 and 160.
\<close>

theorem extract_keeps_first_occurrences:
  "distinct (map normalized_text (extract_knowledge_points nlp model_caller content))
   \<and> extract_knowledge_points nlp model_caller content =
       map (\<lambda>i. all_points nlp model_caller content ! i)
           [i \<leftarrow> [0..<length (all_points nlp model_caller content)].
              normalized_text (all_points nlp model_caller content ! i)
                \<notin> normalized_text ` set (take i (all_points nlp model_caller content))]
   \<and> (\<forall>p. normalized_text p = sub_ws (lower (kp_text p)))
   \<and> (\<forall>s. lower s = map lower_char s)
   \<and> (\<forall>c. (of_char (lower_char c) :: nat) =
            (if (65 \<le> (of_char c :: nat) \<and> (of_char c :: nat) \<le> 90)
                \<or> (192 \<le> (of_char c :: nat) \<and> (of_char c :: nat) \<le> 222
                    \<and> (of_char c :: nat) \<noteq> 215)
             then of_char c + 32 else of_char c))
   \<and> (\<forall>s. (\<forall>c \<in> set s. \<not> is_space c) \<longrightarrow> sub_ws s = s)
   \<and> (\<forall>u ws v. ws \<noteq> [] \<and> (\<forall>c \<in> set ws. is_space c)
                 \<and> (u = [] \<or> \<not> is_space (last u)) \<and> (v = [] \<or> \<not> is_space (hd v))
                 \<longrightarrow> sub_ws (u @ ws @ v) = sub_ws u @ CHR 0x20 # sub_ws v)
   \<and> (\<forall>c. is_space c =
            ((of_char c :: nat) \<in> {9, 10, 11, 12, 13, 28, 29, 30, 31, 32, 133, 160}))"
proof (intro conjI allI impI)
  show "distinct (map normalized_text (extract_knowledge_points nlp model_caller content))"
    using first_seen_distinct[of "[]" "all_points nlp model_caller content"]
    by (simp add: extract_knowledge_points_def unique_loop_first_seen)
  show "extract_knowledge_points nlp model_caller content =
       map (\<lambda>i. all_points nlp model_caller content ! i)
           [i \<leftarrow> [0..<length (all_points nlp model_caller content)].
              normalized_text (all_points nlp model_caller content ! i)
                \<notin> normalized_text ` set (take i (all_points nlp model_caller content))]"
    using first_seen_nth[of "[]" "all_points nlp model_caller content"]
    by (simp add: extract_knowledge_points_def unique_loop_first_seen)
  show "normalized_text p = sub_ws (lower (kp_text p))" for p
    by (simp add: normalized_text_def)
  show "lower s = map lower_char s" for s
    by (simp add: lower_def)
  show "(of_char (lower_char c) :: nat) =
            (if (65 \<le> (of_char c :: nat) \<and> (of_char c :: nat) \<le> 90)
                \<or> (192 \<le> (of_char c :: nat) \<and> (of_char c :: nat) \<le> 222
                    \<and> (of_char c :: nat) \<noteq> 215)
             then of_char c + 32 else of_char c)" for c
    by (rule of_char_lower_char)
  show "sub_ws s = s" if "\<forall>c \<in> set s. \<not> is_space c" for s
    using that by (rule sub_ws_no_space)
  show "sub_ws (u @ ws @ v) = sub_ws u @ CHR 0x20 # sub_ws v"
    if "ws \<noteq> [] \<and> (\<forall>c \<in> set ws. is_space c)
        \<and> (u = [] \<or> \<not> is_space (last u)) \<and> (v = [] \<or> \<not> is_space (hd v))" for u ws v
    using that by (intro sub_ws_collapse) simp_all
  show "is_space c =
            ((of_char c :: nat) \<in> {9, 10, 11, 12, 13, 28, 29, 30, 31, 32, 133, 160})" for c
    by (rule is_space_code_points)
qed

section \<open>Sources of knowledge points\<close>

lemma basic_points_untagged: "p \<in> set (basic_points d) \<Longrightarrow> paragraph_idx p = None"
  by (auto simp: basic_points_def)

lemma llm_loop_sources:
  "p \<in> set (llm_loop call_model xs acc) \<Longrightarrow>
     p \<in> set acc \<or> (\<exists>i. kp_source p = Paragraph i \<and> paragraph_idx p = Some i)"
  by (induction call_model xs acc rule: llm_loop.induct) (auto split: if_splits sum.splits)

lemma all_points_sources:
  assumes "p \<in> set (all_points nlp model_caller content)"
      and "kp_source p \<in> {Entity, Noun_chunk}"
  shows "paragraph_idx p = None"
proof -
  from assms(1) consider "p \<in> set (basic_points (nlp content))"
    | "p \<in> set (advanced_points model_caller content)"
    by (auto simp: all_points_def)
  then show ?thesis
  proof cases
    case 1
    then show ?thesis by (rule basic_points_untagged)
  next
    case 2
    then have "\<exists>i. kp_source p = Paragraph i \<and> paragraph_idx p = Some i"
      by (auto simp: advanced_points_def split: option.splits dest: llm_loop_sources)
    with assms(2) show ?thesis by auto
  qed
qed

lemma extract_sources:
  assumes "p \<in> set (extract_knowledge_points nlp model_caller content)"
      and "kp_source p \<in> {Entity, Noun_chunk}"
  shows "paragraph_idx p = None"
  using assms set_first_seen[of "[]" "all_points nlp model_caller content"]
  by (auto simp: extract_knowledge_points_def unique_loop_first_seen intro: all_points_sources)

lemma prioritize_set:
  "set (prioritize_knowledge_points kps hr) = assign_priority (low_coverage_paragraphs hr) ` set kps"
  by (simp add: prioritize_knowledge_points_def)

lemma prioritize_basic_normal:
  assumes "p \<in> set (prioritize_knowledge_points (extract_knowledge_points nlp model_caller content) hr)"
      and "kp_source p \<in> {Entity, Noun_chunk}"
  shows "priority p = Some ''normal''"
proof -
  from assms(1) obtain p0 where p0: "p0 \<in> set (extract_knowledge_points nlp model_caller content)"
    and p: "p = assign_priority (low_coverage_paragraphs hr) p0"
    by (auto simp: prioritize_set)
  from p assms(2) have "kp_source p0 \<in> {Entity, Noun_chunk}"
    by (simp add: assign_priority_eq)
  with p0 have "paragraph_idx p0 = None" by (rule extract_sources)
  with p show ?thesis by (simp add: assign_priority_eq)
qed

lemma high_gap_point:
  assumes "g \<in> set (high_priority_gaps (identify_knowledge_gaps res kps))"
  shows "gap_index g < length kps \<and> get_priority (kps ! gap_index g) = ''high''"
  using assms
  by (auto simp: identify_knowledge_gaps_def Let_def uncovered_points_eq)

text \<open>
  Claim C10. Entity and noun-phrase points are created without a paragraph index, so after
  prioritization each of them has priority \<open>'normal'\<close>, and no high-priority gap refers to
  one of them, whatever the hash results and the mapping are.
\<close>

theorem basic_points_never_high:
  "(\<forall>p \<in> set (prioritize_knowledge_points
                 (extract_knowledge_points nlp model_caller content) hr).
      kp_source p \<in> {Entity, Noun_chunk} \<longrightarrow> priority p = Some ''normal'')
   \<and> (\<forall>g \<in> set (high_priority_gaps
                   (identify_knowledge_gaps res
                      (prioritize_knowledge_points
                         (extract_knowledge_points nlp model_caller content) hr))).
        gap_index g < length (prioritize_knowledge_points
                                (extract_knowledge_points nlp model_caller content) hr)
        \<and> kp_source (prioritize_knowledge_points
                        (extract_knowledge_points nlp model_caller content) hr ! gap_index g)
            \<notin> {Entity, Noun_chunk})"
proof (intro conjI ballI impI)
  fix p
  assume "p \<in> set (prioritize_knowledge_points
                 (extract_knowledge_points nlp model_caller content) hr)"
     and "kp_source p \<in> {Entity, Noun_chunk}"
  then show "priority p = Some ''normal''" by (rule prioritize_basic_normal)
next
  fix g
  let ?P = "prioritize_knowledge_points (extract_knowledge_points nlp model_caller content) hr"
  assume g: "g \<in> set (high_priority_gaps (identify_knowledge_gaps res ?P))"
  from high_gap_point[OF g] show "gap_index g < length ?P" by simp
  show "kp_source (?P ! gap_index g) \<notin> {Entity, Noun_chunk}"
  proof
    assume src: "kp_source (?P ! gap_index g) \<in> {Entity, Noun_chunk}"
    from high_gap_point[OF g] have lt: "gap_index g < length ?P"
      and hi: "get_priority (?P ! gap_index g) = ''high''" by simp_all
    from lt have "?P ! gap_index g \<in> set ?P" by simp
    from prioritize_basic_normal[OF this src] hi show False
      by (simp add: get_priority_def)
  qed
qed

section \<open>Weighted coverage\<close>

lemma map_of_knowledge_weights:
  "map_of (knowledge_weights kps) k =
     (if k < length kps then Some (point_weight (kps ! k)) else None)"
proof -
  have "map_of (map (\<lambda>i. (i, point_weight (kps ! i))) [0..<length kps]) k =
          (if k < length kps then Some (point_weight (kps ! k)) else None)"
    by (simp add: map_of_map_restrict restrict_map_def)
  then show ?thesis
    by (simp add: knowledge_weights_def enumerate_nth comp_def)
qed

lemma total_knowledge_weights:
  "sum_list (map snd (knowledge_weights kps)) = sum_list (map point_weight kps)"
proof -
  have "map snd (knowledge_weights kps) = map point_weight kps"
    by (rule nth_equalityI) (simp_all add: knowledge_weights_def nth_enumerate_eq)
  then show ?thesis by simp
qed

lemma point_weight_pos: "1 \<le> point_weight p"
  by (simp add: point_weight_def)

lemma sum_point_weight_pos: "kps \<noteq> [] \<Longrightarrow> 0 < sum_list (map point_weight kps)"
proof (induction kps)
  case Nil
  then show ?case by simp
next
  case (Cons p kps)
  have "0 \<le> sum_list (map point_weight kps)"
    by (rule sum_list_nonneg) (auto intro: order_trans[OF _ point_weight_pos])
  moreover have "0 < point_weight p" using point_weight_pos[of p] by linarith
  ultimately show ?case by simp
qed

lemma covered_fold:
  "foldl (\<lambda>acc k_idx. (List.insert k_idx (fst acc), snd acc + w k_idx)) acc ks =
     (foldl (\<lambda>cp k. List.insert k cp) (fst acc) ks, snd acc + sum_list (map w ks))"
  by (induction ks arbitrary: acc) (simp_all add: add.assoc)

lemma insert_fold_set:
  "set (foldl (\<lambda>cp k. List.insert k cp) cp ks) = set cp \<union> set ks"
  by (induction ks arbitrary: cp) auto

lemma insert_fold_distinct:
  "distinct cp \<Longrightarrow> distinct (foldl (\<lambda>cp k. List.insert k cp) cp ks)"
  by (induction ks arbitrary: cp) auto

lemma insert_fold_length:
  "length (foldl (\<lambda>cp k. List.insert k cp) [] ks) = card (set ks)"
proof -
  have "distinct (foldl (\<lambda>cp k. List.insert k cp) [] ks)"
    by (rule insert_fold_distinct) simp
  then have "length (foldl (\<lambda>cp k. List.insert k cp) [] ks)
               = card (set (foldl (\<lambda>cp k. List.insert k cp) [] ks))"
    by (simp add: distinct_card)
  then show ?thesis by (simp add: insert_fold_set)
qed


text \<open>
  Claim C7. For a coverage map whose keys are distinct indices of the knowledge-point list,
  the simple coverage is the number of mapped points divided by the number of points, and
  the weighted coverage is the sum of the weights of the mapped points divided by the sum
  of the weights of all points, where a point of priority \<open>'high'\<close> weighs 1.5 and any
  other point 1.0; with zero knowledge points both rates are 0.
\<close>

theorem weighted_coverage_rates:
  assumes "distinct (map fst (knowledge_coverage res))"
      and "fst ` set (knowledge_coverage res) \<subseteq> {..<length kps}"
  shows "simple_coverage (calculate_weighted_coverage res kps) =
           (if kps = [] then 0
            else of_nat (card (fst ` set (knowledge_coverage res))) / of_nat (length kps))
         \<and> weighted_coverage (calculate_weighted_coverage res kps) =
           (if kps = [] then 0
            else (\<Sum>k \<in> fst ` set (knowledge_coverage res). point_weight (kps ! k))
                 / (\<Sum>i < length kps. point_weight (kps ! i)))
         \<and> (\<forall>p. point_weight p = (if priority p = Some ''high'' then 3 / 2 else 1))"
proof -
  let ?K = "map fst (knowledge_coverage res)"
  have w: "get_weight (knowledge_weights kps) k = point_weight (kps ! k)" if "k \<in> set ?K" for k
    using that assms(2) by (auto simp: get_weight_def map_of_knowledge_weights)
  have "sum_list (map (get_weight (knowledge_weights kps)) ?K)
          = sum_list (map (\<lambda>k. point_weight (kps ! k)) ?K)"
    by (rule arg_cong[where f = sum_list], rule map_cong[OF refl]) (rule w)
  also have "\<dots> = (\<Sum>k \<in> set ?K. point_weight (kps ! k))"
    using assms(1) by (rule sum_list_distinct_conv_sum_set)
  finally have cw: "sum_list (map (get_weight (knowledge_weights kps)) ?K)
          = (\<Sum>k \<in> fst ` set (knowledge_coverage res). point_weight (kps ! k))"
    by simp
  have tw: "sum_list (map point_weight kps) = (\<Sum>i < length kps. point_weight (kps ! i))"
    by (simp add: sum_list_sum_nth atLeast0LessThan)
  have pos: "kps \<noteq> [] \<Longrightarrow> 0 < sum_list (map point_weight kps)"
    by (rule sum_point_weight_pos)
  show ?thesis
    using cw tw pos
    by (simp add: calculate_weighted_coverage_def Let_def covered_fold insert_fold_length
          total_knowledge_weights point_weight_def)
qed

section \<open>The mapping of QA pairs to knowledge points\<close>

lemma foldl_concat_map:
  "foldl f a (concat (map g xs)) = foldl (\<lambda>a x. foldl f a (g x)) a xs"
  by (induction xs arbitrary: a) simp_all

lemma map_qa_to_knowledge_units:
  "map_qa_to_knowledge similarity qa_data kps =
     foldl (map_unit similarity kps)
           \<lparr>mappings = [], knowledge_coverage = [], qa_knowledge_points = []\<rparr>
           (qa_units qa_data)"
proof -
  have "foldl (map_unit similarity kps) res
          (map (\<lambda>(q_idx, q). ((t, q_idx), tn, q)) qs)
        = foldl (map_qa similarity kps t tn) res qs" for res t tn qs
    by (induction qs arbitrary: res) (auto simp: map_unit_def)
  moreover have "map_topic similarity kps =
          (\<lambda>res it. foldl (map_qa similarity kps (fst it) (get_topic (fst it) (snd it)))
                          res (enumerate 0 (get_qa_pairs (snd it))))"
    by (intro ext) (simp add: map_topic_def)
  ultimately show ?thesis
    by (simp add: map_qa_to_knowledge_def qa_units_def foldl_concat_map case_prod_beta)
qed

lemma dd_get_dd_append:
  "dd_get (dd_append k v d) k' = (if k' = k then dd_get d k @ [v] else dd_get d k')"
  by (induction k v d rule: dd_append.induct) (auto simp: dd_get_def)




lemma dd_get_dict_set:
  "dd_get (dict_set k v d) k' = (if k' = k then v else dd_get d k')"
  by (induction k v d rule: dict_set.induct) (auto simp: dd_get_def)

text \<open>The loop over the knowledge points for one QA pair.\<close>

lemma match_point_step:
  "match_point similarity qid text acc (k, p) =
     (if matches similarity text p
      then (fst acc @ [\<lparr>knowledge_idx = k, knowledge_text = kp_text p,
                         mp_similarity = text_similarity similarity text (kp_text p),
                         mp_priority = get_priority p\<rparr>],
            dd_append k \<lparr>qa_id = qid,
                          ce_similarity = text_similarity similarity text (kp_text p)\<rparr> (snd acc))
      else acc)"
  by (simp add: match_point_def matches_def Let_def)

lemma match_loop_fst:
  "fst (foldl (match_point similarity qid text) acc (enumerate n ps)) =
     fst acc @
     map (\<lambda>i. \<lparr>knowledge_idx = n + i, knowledge_text = kp_text (ps ! i),
                mp_similarity = text_similarity similarity text (kp_text (ps ! i)),
                mp_priority = get_priority (ps ! i)\<rparr>)
         [i \<leftarrow> [0..<length ps]. matches similarity text (ps ! i)]"
proof (induction ps arbitrary: n acc)
  case Nil
  show ?case by simp
next
  case (Cons p ps)
  show ?case
    unfolding length_Cons filter_upt_Suc_shift
    by (simp add: Cons match_point_step comp_def)
qed

lemma match_loop_get:
  "dd_get (snd (foldl (match_point similarity qid text) acc (enumerate n ps))) k =
     dd_get (snd acc) k @
     (if n \<le> k \<and> k < n + length ps \<and> matches similarity text (ps ! (k - n))
      then [\<lparr>qa_id = qid,
             ce_similarity = text_similarity similarity text (kp_text (ps ! (k - n)))\<rparr>]
      else [])"
proof (induction ps arbitrary: n acc)
  case Nil
  show ?case by simp
next
  case (Cons p ps)
  show ?case
  proof (cases "k = n")
    case True
    have "dd_get (snd (foldl (match_point similarity qid text) acc' (enumerate (Suc n) ps))) n
            = dd_get (snd acc') n" for acc'
      using Cons[of acc' "Suc n"] True by simp
    then show ?thesis using True
      by (simp add: match_point_step dd_get_dd_append)
  next
    case False
    show ?thesis
    proof (cases "n < k")
      case True
      then have eq: "(p # ps) ! (k - n) = ps ! (k - Suc n)" by (simp add: nth_Cons')
      from True have c: "Suc n \<le> k" "n \<le> k" "k \<noteq> n" by simp_all
      show ?thesis
        by (simp add: Cons match_point_step dd_get_dd_append eq c)
    next
      case lt: False
      with False have c: "\<not> n \<le> k" "\<not> Suc n \<le> k" by simp_all
      show ?thesis
        by (simp add: Cons match_point_step dd_get_dd_append c False)
    qed
  qed
qed


text \<open>One QA pair.\<close>

lemma map_unit_coverage_get:
  "dd_get (knowledge_coverage (map_unit similarity kps res u)) k =
     dd_get (knowledge_coverage res) k @
     (if k < length kps \<and> matches similarity (qa_text (snd (snd u))) (kps ! k)
      then [\<lparr>qa_id = fst u,
             ce_similarity =
               text_similarity similarity (qa_text (snd (snd u))) (kp_text (kps ! k))\<rparr>]
      else [])"
  using match_loop_get[of similarity "fst u" "qa_text (snd (snd u))" "([], knowledge_coverage res)"
          0 kps k]
  by (simp add: map_unit_def map_qa_def Let_def)

lemma map_unit_points_get:
  "dd_get (qa_knowledge_points (map_unit similarity kps res u)) qid =
     (if qid = fst u
      then [k \<leftarrow> [0..<length kps]. matches similarity (qa_text (snd (snd u))) (kps ! k)]
      else dd_get (qa_knowledge_points res) qid)"
  using match_loop_fst[of similarity "fst u" "qa_text (snd (snd u))"
          "([], knowledge_coverage res)" 0 kps]
  by (simp add: map_unit_def map_qa_def Let_def dd_get_dict_set comp_def)


text \<open>All QA pairs.\<close>

lemma units_coverage_get:
  "dd_get (knowledge_coverage (foldl (map_unit similarity kps) res us)) k =
     dd_get (knowledge_coverage res) k @
     map (\<lambda>u. \<lparr>qa_id = fst u,
                ce_similarity =
                  text_similarity similarity (qa_text (snd (snd u))) (kp_text (kps ! k))\<rparr>)
         [u \<leftarrow> us. k < length kps \<and> matches similarity (qa_text (snd (snd u))) (kps ! k)]"
  by (induction us rule: rev_induct) (simp_all add: map_unit_coverage_get)

lemma units_points_get:
  "distinct (map fst us) \<Longrightarrow> u \<in> set us \<Longrightarrow>
   dd_get (qa_knowledge_points (foldl (map_unit similarity kps) res us)) (fst u) =
     [k \<leftarrow> [0..<length kps]. matches similarity (qa_text (snd (snd u))) (kps ! k)]"
proof (induction us rule: rev_induct)
  case Nil
  then show ?case by simp
next
  case (snoc x us)
  show ?case
  proof (cases "u = x")
    case True
    then show ?thesis by (simp add: map_unit_points_get)
  next
    case False
    with snoc.prems have mem: "u \<in> set us" by simp
    then have "fst u \<in> fst ` set us" by (rule imageI)
    moreover from snoc.prems(1) have "fst x \<notin> fst ` set us" by simp
    ultimately have ne: "fst u \<noteq> fst x" by metis
    from snoc.prems(1) have "distinct (map fst us)" by simp
    with snoc.IH mem ne show ?thesis by (simp add: map_unit_points_get)
  qed
qed




text \<open>The identifiers of the QA pairs.\<close>

lemma units_from_ids:
  "distinct (map fst (concat (map (\<lambda>(t_idx, t).
                    map (\<lambda>(q_idx, q). ((t_idx, q_idx), get_topic t_idx t, q))
                        (enumerate 0 (get_qa_pairs t)))
                 (enumerate n qa_data))))
   \<and> (\<forall>u \<in> set (concat (map (\<lambda>(t_idx, t).
                    map (\<lambda>(q_idx, q). ((t_idx, q_idx), get_topic t_idx t, q))
                        (enumerate 0 (get_qa_pairs t)))
                 (enumerate n qa_data))). n \<le> fst (fst u))"
proof (induction qa_data arbitrary: n)
  case Nil
  show ?case by simp
next
  case (Cons g gs)
  have head: "map fst (map (\<lambda>(q_idx, q). ((n, q_idx), get_topic n g, q))
                          (enumerate 0 (get_qa_pairs g)))
              = map (\<lambda>q. (n, q)) [0..<length (get_qa_pairs g)]"
    by (simp add: enumerate_nth comp_def)
  have "distinct (map (\<lambda>q. (n, q)) [0..<length (get_qa_pairs g)])"
    by (simp add: distinct_map inj_on_def)
  with Cons[of "Suc n"] show ?case
    by (simp only: enumerate_simps list.map concat.simps map_append distinct_append head
          prod.case set_append set_map)
       (auto simp: enumerate_nth)
qed

lemma qa_units_distinct: "distinct (map fst (qa_units qa_data))"
  unfolding qa_units_def using units_from_ids[of 0 qa_data] by blast

lemma qa_units_member:
  "t < length qa_data \<Longrightarrow> q < length (get_qa_pairs (qa_data ! t)) \<Longrightarrow>
   ((t, q), get_topic t (qa_data ! t), get_qa_pairs (qa_data ! t) ! q) \<in> set (qa_units qa_data)"
  unfolding qa_units_def
  by (auto simp: in_set_enumerate_eq image_iff intro!: bexI[of _ "(t, qa_data ! t)"]
        bexI[of _ "(q, get_qa_pairs (qa_data ! t) ! q)"])

lemma in_image_Collect: "(x \<in> f ` {u \<in> S. P u}) = (\<exists>u \<in> S. f u = x \<and> P u)"
  by auto

text \<open>
  Claim C6. For every QA pair and every knowledge point, the mapper records the QA pair in
  the coverage list of the point, and the point in the list of the QA pair, if and only if
  the similarity of the QA text (question, a space, answer) and the text of the point is
  above 0.5.
\<close>

theorem mapping_entry_iff_similar:
  assumes "t < length qa_data"
      and "q < length (get_qa_pairs (qa_data ! t))"
      and "k < length kps"
  shows "((t, q) \<in> qa_id ` set (dd_get (knowledge_coverage
                                        (map_qa_to_knowledge similarity qa_data kps)) k))
           = (1 / 2 < text_similarity similarity (qa_text (get_qa_pairs (qa_data ! t) ! q))
                        (kp_text (kps ! k)))
         \<and> (k \<in> set (dd_get (qa_knowledge_points
                                (map_qa_to_knowledge similarity qa_data kps)) (t, q)))
           = (1 / 2 < text_similarity similarity (qa_text (get_qa_pairs (qa_data ! t) ! q))
                        (kp_text (kps ! k)))"
proof -
  let ?u = "((t, q), get_topic t (qa_data ! t), get_qa_pairs (qa_data ! t) ! q)"
  let ?us = "qa_units qa_data"
  have mem: "?u \<in> set ?us" using assms(1,2) by (rule qa_units_member)
  have uniq: "u = ?u" if "u \<in> set ?us" "fst u = (t, q)" for u
  proof -
    have "inj_on fst (set ?us)" using qa_units_distinct[of qa_data] by (simp add: distinct_map)
    from inj_onD[OF this, of u ?u] that mem show ?thesis by simp
  qed
  have "((t, q) \<in> qa_id ` set (dd_get (knowledge_coverage
                                        (map_qa_to_knowledge similarity qa_data kps)) k))
        = (\<exists>u \<in> set ?us. fst u = (t, q) \<and> matches similarity (qa_text (snd (snd u))) (kps ! k))"
  proof -
    have "qa_id ` set (dd_get (knowledge_coverage
                                  (map_qa_to_knowledge similarity qa_data kps)) k)
            = fst ` {u \<in> set ?us. matches similarity (qa_text (snd (snd u))) (kps ! k)}"
      unfolding map_qa_to_knowledge_units units_coverage_get
      using assms(3) by (simp add: dd_get_def image_image)
    then show ?thesis by (simp only: in_image_Collect)
  qed
  also have "\<dots> = matches similarity (qa_text (snd (snd ?u))) (kps ! k)"
  proof
    assume "\<exists>u \<in> set ?us. fst u = (t, q) \<and> matches similarity (qa_text (snd (snd u))) (kps ! k)"
    then obtain u where u: "u \<in> set ?us" "fst u = (t, q)"
      and m: "matches similarity (qa_text (snd (snd u))) (kps ! k)"
      by blast
    from u have "u = ?u" by (rule uniq)
    with m show "matches similarity (qa_text (snd (snd ?u))) (kps ! k)" by simp
  next
    assume "matches similarity (qa_text (snd (snd ?u))) (kps ! k)"
    with mem show "\<exists>u \<in> set ?us. fst u = (t, q) \<and> matches similarity (qa_text (snd (snd u))) (kps ! k)"
      by (intro bexI[of _ ?u]) simp_all
  qed
  finally have one: "((t, q) \<in> qa_id ` set (dd_get (knowledge_coverage
                                        (map_qa_to_knowledge similarity qa_data kps)) k))
        = matches similarity (qa_text (get_qa_pairs (qa_data ! t) ! q)) (kps ! k)"
    by simp
  have "dd_get (qa_knowledge_points (map_qa_to_knowledge similarity qa_data kps)) (fst ?u)
          = [k \<leftarrow> [0..<length kps]. matches similarity (qa_text (snd (snd ?u))) (kps ! k)]"
    unfolding map_qa_to_knowledge_units
    using qa_units_distinct mem by (rule units_points_get)
  then have two: "(k \<in> set (dd_get (qa_knowledge_points
                                (map_qa_to_knowledge similarity qa_data kps)) (t, q)))
        = matches similarity (qa_text (get_qa_pairs (qa_data ! t) ! q)) (kps ! k)"
    using assms(3) by simp
  from one two show ?thesis by (simp add: matches_def)
qed

section \<open>The covered paragraphs\<close>

lemma record_match_covered:
  "set (covered_paragraphs (foldl (record_match q) acc ids)) = set (covered_paragraphs acc) \<union> set ids
   \<and> (distinct (covered_paragraphs acc) \<longrightarrow>
        distinct (covered_paragraphs (foldl (record_match q) acc ids)))"
  by (induction ids arbitrary: acc) (auto simp: record_match_def)

lemma query_fold_covered:
  "set (covered_paragraphs
          (foldl (\<lambda>acc (q_idx, qa_data). foldl (record_match q_idx) acc (Q (qa_minhash qa_data)))
                 acc xs))
     = set (covered_paragraphs acc) \<union> (\<Union>x \<in> set xs. set (Q (qa_minhash (snd x))))
   \<and> (distinct (covered_paragraphs acc) \<longrightarrow>
        distinct (covered_paragraphs
          (foldl (\<lambda>acc (q_idx, qa_data). foldl (record_match q_idx) acc (Q (qa_minhash qa_data)))
                 acc xs)))"
proof (induction xs arbitrary: acc)
  case Nil
  show ?case by simp
next
  case (Cons x xs)
  obtain i h where x: "x = (i, h)" by (cases x)
  show ?case
    using Cons[of "foldl (record_match i) acc (Q (qa_minhash h))"]
          record_match_covered[of i acc "Q (qa_minhash h)"]
    by (auto simp: x)
qed

lemma query_loop_covered:
  "set (covered_paragraphs (query_loop D threshold doc_hashes qa_hashes))
     = (\<Union>sk \<in> qa_minhash ` set qa_hashes.
          set (lsh_query D threshold 128 (lsh_index doc_hashes) sk))
   \<and> distinct (covered_paragraphs (query_loop D threshold doc_hashes qa_hashes))"
proof -
  have "map snd (enumerate 0 qa_hashes) = qa_hashes"
    by (simp add: enumerate_eq_zip)
  then have "set qa_hashes = snd ` set (enumerate 0 qa_hashes)"
    by (metis set_map)
  then have "(\<Union>x \<in> set (enumerate 0 qa_hashes).
                 set (lsh_query D threshold 128 (lsh_index doc_hashes) (qa_minhash (snd x))))
             = (\<Union>sk \<in> qa_minhash ` set qa_hashes.
                 set (lsh_query D threshold 128 (lsh_index doc_hashes) sk))"
    by (simp add: image_image)
  with query_fold_covered[of "lsh_query D threshold 128 (lsh_index doc_hashes)"
         "\<lparr>covered_paragraphs = [], paragraph_coverage = [], qa_matches = []\<rparr>"
         "enumerate 0 qa_hashes"]
  show ?thesis by (simp add: query_loop_def)
qed

lemma compute_lsh_coverage_covered:
  assumes "doc_hashes \<noteq> []"
  shows "\<exists>stats. compute_lsh_coverage D doc_hashes qa_hashes threshold = Inr stats
           \<and> covered_paragraphs stats
               = covered_paragraphs (query_loop D threshold doc_hashes qa_hashes)
           \<and> total_paragraphs stats = length doc_hashes
           \<and> coverage_rate stats
               = of_nat (length (covered_paragraphs stats)) / of_nat (length doc_hashes)"
  using assms by (simp add: compute_lsh_coverage_def Let_def)

lemma qa_minhash_texts:
  "map qa_minhash (compute_qa_minhash D jieba_cut qa_data n)
     = map (\<lambda>text. sketch_of D n (jieba_cut (sub_ws text))) (qa_texts qa_data)"
  by (simp add: compute_qa_minhash_def qa_texts_def qa_units_def map_concat comp_def
        case_prod_beta)

lemma hash_based_evaluation_covered:
  assumes "split_document doc_content 50 \<noteq> []"
  shows "\<exists>hr stats. hash_based_evaluation D jieba_cut doc_content qa_data threshold
                       = Inr (hr, split_document doc_content 50, stats)
           \<and> hr_covered_paragraphs hr = length (covered_paragraphs stats)
           \<and> distinct (covered_paragraphs stats)
           \<and> set (covered_paragraphs stats)
               = (\<Union>text \<in> set (qa_texts qa_data).
                    set (lsh_query D threshold 128
                           (lsh_index (compute_minhash D jieba_cut (split_document doc_content 50) 128))
                           (sketch_of D 128 (jieba_cut (sub_ws text)))))"
proof -
  let ?dh = "compute_minhash D jieba_cut (split_document doc_content 50) 128"
  let ?qh = "compute_qa_minhash D jieba_cut qa_data 128"
  have "length ?dh = length (split_document doc_content 50)"
    by (simp add: compute_minhash_def)
  with assms have "?dh \<noteq> []" by (metis length_0_conv)
  from compute_lsh_coverage_covered[OF this, of D ?qh threshold]
  obtain stats where st: "compute_lsh_coverage D ?dh ?qh threshold = Inr stats"
    and cov: "covered_paragraphs stats = covered_paragraphs (query_loop D threshold ?dh ?qh)"
    by blast
  have "qa_minhash ` set ?qh
          = (\<lambda>text. sketch_of D 128 (jieba_cut (sub_ws text))) ` set (qa_texts qa_data)"
    using qa_minhash_texts[of D jieba_cut qa_data 128] by (metis set_map)
  with query_loop_covered[of D threshold ?dh ?qh] cov
  have "distinct (covered_paragraphs stats)"
    and "set (covered_paragraphs stats)
               = (\<Union>text \<in> set (qa_texts qa_data).
                    set (lsh_query D threshold 128 (lsh_index ?dh)
                           (sketch_of D 128 (jieba_cut (sub_ws text)))))"
    by simp_all
  with st show ?thesis
    by (simp add: hash_based_evaluation_def Let_def)
qed

section \<open>Monotonicity of the coverage counts\<close>


section \<open>Missing fields and empty QA data\<close>

lemma hash_based_evaluation_no_qa:
  assumes "split_document doc_content 50 \<noteq> []"
  shows "\<exists>hr stats. hash_based_evaluation D jieba_cut doc_content [] threshold
                       = Inr (hr, split_document doc_content 50, stats)
           \<and> hr_coverage_rate hr = 0 \<and> hr_covered_paragraphs hr = 0
           \<and> hr_qa_with_match hr = 0 \<and> hr_qa_match_rate hr = 0"
proof -
  have "length (compute_minhash D jieba_cut (split_document doc_content 50) 128)
          = length (split_document doc_content 50)"
    by (simp add: compute_minhash_def)
  with assms have "length (compute_minhash D jieba_cut (split_document doc_content 50) 128) \<noteq> 0"
    by simp
  then show ?thesis
    by (simp add: hash_based_evaluation_def Let_def compute_qa_minhash_def
          compute_lsh_coverage_def query_loop_def)
qed

lemma hash_based_evaluation_returns:
  assumes "split_document doc_content 50 \<noteq> []"
  shows "\<exists>hr stats. hash_based_evaluation D jieba_cut doc_content qa_data threshold
                       = Inr (hr, split_document doc_content 50, stats)"
  using hash_based_evaluation_covered[OF assms, of D jieba_cut qa_data threshold] by blast

lemma compute_qa_minhash_no_question:
  "compute_qa_minhash D jieba_cut
     [\<lparr>topic = t, qa_pairs = Some [\<lparr>question = None, answer = Some a\<rparr>]\<rparr>] n
   = [\<lparr>qa_minhash = sketch_of D n (jieba_cut (sub_ws (CHR 0x20 # a))),
       qh_topic = (case t of None \<Rightarrow> Unnamed 0 | Some x \<Rightarrow> Named x),
       qh_question = [], qh_answer = a, qa_idx = 0, topic_idx = 0\<rparr>]"
  by (simp add: compute_qa_minhash_def get_qa_pairs_def get_topic_def qa_text_def
        get_question_def get_answer_def)

text \<open>
  Claim C2, as amended. The engine validates nothing: \<open>compute_qa_minhash\<close> reads a topic
  with \<open>.get('qa_pairs', [])\<close> and a QA pair with \<open>.get('question', '')\<close> and
  \<open>.get('answer', '')\<close>. For a document with at least one segment the hash evaluation
  returns its report for every QA data; for no QA data at all the report has the coverage
  rate 0, no covered paragraph, no QA pair with a match and the QA match rate 0; a missing
  question or answer is read as the empty text, a missing list of QA pairs as no pair, and
  a QA pair without its question gets its sketch like any other.
\<close>

theorem no_input_validation:
  assumes "split_document doc_content 50 \<noteq> []"
  shows "(\<exists>hr stats. hash_based_evaluation D jieba_cut doc_content qa_data threshold
                       = Inr (hr, split_document doc_content 50, stats))
       \<and> (\<exists>hr stats. hash_based_evaluation D jieba_cut doc_content [] threshold
                       = Inr (hr, split_document doc_content 50, stats)
           \<and> hr_coverage_rate hr = 0 \<and> hr_covered_paragraphs hr = 0
           \<and> hr_qa_with_match hr = 0 \<and> hr_qa_match_rate hr = 0)
       \<and> qa_text \<lparr>question = None, answer = Some a\<rparr> = CHR 0x20 # a
       \<and> qa_text \<lparr>question = Some q, answer = None\<rparr> = q @ [CHR 0x20]
       \<and> get_qa_pairs \<lparr>topic = t, qa_pairs = None\<rparr> = []
       \<and> compute_qa_minhash D jieba_cut
            [\<lparr>topic = t, qa_pairs = Some [\<lparr>question = None, answer = Some a\<rparr>]\<rparr>] n
          = [\<lparr>qa_minhash = sketch_of D n (jieba_cut (sub_ws (CHR 0x20 # a))),
              qh_topic = (case t of None \<Rightarrow> Unnamed 0 | Some x \<Rightarrow> Named x),
              qh_question = [], qh_answer = a, qa_idx = 0, topic_idx = 0\<rparr>]"
  using hash_based_evaluation_returns[OF assms, of D jieba_cut qa_data threshold]
        hash_based_evaluation_no_qa[OF assms, of D jieba_cut threshold]
        compute_qa_minhash_no_question[of D jieba_cut t a n]
  by (simp add: qa_text_def get_question_def get_answer_def get_qa_pairs_def)

section \<open>The banded index\<close>













section \<open>The properties on the example data\<close>

lemma demo_split: "split_document demo_document 50 = [demo_document]"
  by code_simp

lemma demo_all_points:
  "all_points demo_nlp (Some demo_model) demo_document =
     [demo_entity,
      demo_chunk\<lparr>kp_text := ''ACME''\<rparr>,
      demo_chunk,
      demo_chunk\<lparr>kp_text := ''Its'' @ [CHR 0x09] @ '' STOCK''\<rparr>,
      demo_extracted,
      demo_extracted\<lparr>kp_text := ''acme''\<rparr>,
      demo_extracted\<lparr>kp_text := ''orders ship   by rail''\<rparr>]"
  by code_simp

lemma demo_extract:
  "extract_knowledge_points demo_nlp (Some demo_model) demo_document =
     [demo_entity, demo_chunk, demo_extracted]"
  by code_simp

lemma demo_prioritize:
  "prioritize_knowledge_points [demo_entity, demo_chunk, demo_extracted] demo_hash_results =
     [demo_extracted\<lparr>priority := Some ''high''\<rparr>,
      demo_entity\<lparr>priority := Some ''normal''\<rparr>,
      demo_chunk\<lparr>priority := Some ''normal''\<rparr>]"
  by code_simp

lemma demo_knowledge_coverage:
  "knowledge_coverage demo_mapping = [(2, [\<lparr>qa_id = (0, 0), ce_similarity = 1\<rparr>])]"
  by code_simp

theorem prioritize_stable_partition_witness:
  "prioritize_knowledge_points [demo_entity, demo_chunk, demo_extracted] demo_hash_results
     = demo_prioritized"
proof -
  have "[p \<leftarrow> map (assign_priority (low_coverage_paragraphs demo_hash_results))
                  [demo_entity, demo_chunk, demo_extracted]. priority p = Some ''high'']
        @ [p \<leftarrow> map (assign_priority (low_coverage_paragraphs demo_hash_results))
                    [demo_entity, demo_chunk, demo_extracted]. priority p = Some ''normal'']
        = demo_prioritized"
    by code_simp
  with conjunct1[OF prioritize_stable_partition[of "[demo_entity, demo_chunk, demo_extracted]"
         demo_hash_results]]
  show ?thesis by (rule trans)
qed

theorem gaps_are_uncovered_points_high_first_witness:
  "[] \<notin> snd ` set (knowledge_coverage demo_mapping)
   \<and> all_gaps (identify_knowledge_gaps demo_mapping demo_prioritized) =
       [\<lparr>gap_index = 0, gap_text = ''Orders  ship by rail'', gap_type = ''LLM_EXTRACTED'',
         gap_priority = ''high''\<rparr>,
        \<lparr>gap_index = 1, gap_text = ''Acme'', gap_type = ''ORG'', gap_priority = ''normal''\<rparr>]"
proof -
  have h: "[] \<notin> snd ` set (knowledge_coverage demo_mapping)"
    by (simp add: demo_knowledge_coverage)
  have "[g \<leftarrow> map (\<lambda>i. \<lparr>gap_index = i, gap_text = kp_text (demo_prioritized ! i),
                          gap_type = (case kp_type (demo_prioritized ! i) of
                                        None \<Rightarrow> ''UNKNOWN'' | Some t \<Rightarrow> t),
                          gap_priority = get_priority (demo_prioritized ! i)\<rparr>)
                   [i \<leftarrow> [0..<length demo_prioritized]. dd_get (knowledge_coverage demo_mapping) i = []].
          gap_priority g = ''high'']
        @
        [g \<leftarrow> map (\<lambda>i. \<lparr>gap_index = i, gap_text = kp_text (demo_prioritized ! i),
                          gap_type = (case kp_type (demo_prioritized ! i) of
                                        None \<Rightarrow> ''UNKNOWN'' | Some t \<Rightarrow> t),
                          gap_priority = get_priority (demo_prioritized ! i)\<rparr>)
                   [i \<leftarrow> [0..<length demo_prioritized]. dd_get (knowledge_coverage demo_mapping) i = []].
          gap_priority g \<noteq> ''high'']
        = [\<lparr>gap_index = 0, gap_text = ''Orders  ship by rail'', gap_type = ''LLM_EXTRACTED'',
            gap_priority = ''high''\<rparr>,
           \<lparr>gap_index = 1, gap_text = ''Acme'', gap_type = ''ORG'', gap_priority = ''normal''\<rparr>]"
    by code_simp
  with gaps_are_uncovered_points_high_first[OF h, of demo_prioritized]
  have "all_gaps (identify_knowledge_gaps demo_mapping demo_prioritized) =
       [\<lparr>gap_index = 0, gap_text = ''Orders  ship by rail'', gap_type = ''LLM_EXTRACTED'',
         gap_priority = ''high''\<rparr>,
        \<lparr>gap_index = 1, gap_text = ''Acme'', gap_type = ''ORG'', gap_priority = ''normal''\<rparr>]"
    by (rule trans)
  with h show ?thesis by (rule conjI)
qed

theorem extract_keeps_first_occurrences_witness:
  "all_points demo_nlp (Some demo_model) demo_document =
     [demo_entity,
      demo_chunk\<lparr>kp_text := ''ACME''\<rparr>,
      demo_chunk,
      demo_chunk\<lparr>kp_text := ''Its'' @ [CHR 0x09] @ '' STOCK''\<rparr>,
      demo_extracted,
      demo_extracted\<lparr>kp_text := ''acme''\<rparr>,
      demo_extracted\<lparr>kp_text := ''orders ship   by rail''\<rparr>]
   \<and> extract_knowledge_points demo_nlp (Some demo_model) demo_document
       = [demo_entity, demo_chunk, demo_extracted]
   \<and> distinct (map normalized_text
                 (extract_knowledge_points demo_nlp (Some demo_model) demo_document))
   \<and> normalized_text (demo_chunk\<lparr>kp_text := ''Its'' @ [CHR 0x09] @ '' STOCK''\<rparr>)
       = normalized_text demo_chunk
   \<and> normalized_text (demo_extracted\<lparr>kp_text := ''orders ship   by rail''\<rparr>)
       = normalized_text demo_extracted
   \<and> sub_ws (''its'' @ [CHR 0x09, CHR 0x20] @ ''stock'') = ''its stock''"
proof -
  note T = extract_keeps_first_occurrences[of demo_nlp "Some demo_model" demo_document]
  note T1 = conjunct1[OF T]
  note T2 = conjunct1[OF conjunct2[OF T]]
  note T6 = conjunct1[OF conjunct2[OF conjunct2[OF conjunct2[OF conjunct2[OF conjunct2[OF T]]]]]]
  note T7 = conjunct1[OF conjunct2[OF conjunct2[OF conjunct2[OF conjunct2[OF conjunct2[OF
              conjunct2[OF T]]]]]]]
  have "map (\<lambda>i. all_points demo_nlp (Some demo_model) demo_document ! i)
           [i \<leftarrow> [0..<length (all_points demo_nlp (Some demo_model) demo_document)].
              normalized_text (all_points demo_nlp (Some demo_model) demo_document ! i)
                \<notin> normalized_text ` set (take i (all_points demo_nlp (Some demo_model) demo_document))]
        = [demo_entity, demo_chunk, demo_extracted]"
    by code_simp
  with T2 have e: "extract_knowledge_points demo_nlp (Some demo_model) demo_document
          = [demo_entity, demo_chunk, demo_extracted]"
    by (rule trans)
  have n1: "normalized_text (demo_chunk\<lparr>kp_text := ''Its'' @ [CHR 0x09] @ '' STOCK''\<rparr>)
       = normalized_text demo_chunk"
    by code_simp
  have n2: "normalized_text (demo_extracted\<lparr>kp_text := ''orders ship   by rail''\<rparr>)
       = normalized_text demo_extracted"
    by code_simp
  have w: "[CHR 0x09, CHR 0x20] \<noteq> [] \<and> (\<forall>c \<in> set [CHR 0x09, CHR 0x20]. is_space c)
        \<and> (''its'' = [] \<or> \<not> is_space (last ''its''))
        \<and> (''stock'' = [] \<or> \<not> is_space (hd ''stock''))"
    by (simp add: is_space_def whitespace_def)
  have i: "\<forall>c \<in> set ''its''. \<not> is_space c" and k: "\<forall>c \<in> set ''stock''. \<not> is_space c"
    by (simp_all add: is_space_def whitespace_def)
  from T7 w have "sub_ws (''its'' @ [CHR 0x09, CHR 0x20] @ ''stock'')
                    = sub_ws ''its'' @ CHR 0x20 # sub_ws ''stock''"
    by blast
  moreover from T6 i have "sub_ws ''its'' = ''its''" by blast
  moreover from T6 k have "sub_ws ''stock'' = ''stock''" by blast
  ultimately have c: "sub_ws (''its'' @ [CHR 0x09, CHR 0x20] @ ''stock'') = ''its stock''"
    by simp
  from demo_all_points e T1 n1 n2 c show ?thesis by (intro conjI)
qed

theorem basic_points_never_high_witness:
  "demo_entity\<lparr>priority := Some ''normal''\<rparr>
     \<in> set (prioritize_knowledge_points
              (extract_knowledge_points demo_nlp (Some demo_model) demo_document)
              demo_hash_results)
   \<and> kp_source (demo_entity\<lparr>priority := Some ''normal''\<rparr>) \<in> {Entity, Noun_chunk}
   \<and> priority (demo_entity\<lparr>priority := Some ''normal''\<rparr>) = Some ''normal''
   \<and> high_priority_gaps
        (identify_knowledge_gaps demo_mapping
           (prioritize_knowledge_points
              (extract_knowledge_points demo_nlp (Some demo_model) demo_document)
              demo_hash_results))
       = [\<lparr>gap_index = 0, gap_text = ''Orders  ship by rail'', gap_type = ''LLM_EXTRACTED'',
            gap_priority = ''high''\<rparr>]"
proof -
  have m: "demo_entity\<lparr>priority := Some ''normal''\<rparr>
     \<in> set (prioritize_knowledge_points
              (extract_knowledge_points demo_nlp (Some demo_model) demo_document)
              demo_hash_results)"
    by code_simp
  have s: "kp_source (demo_entity\<lparr>priority := Some ''normal''\<rparr>) \<in> {Entity, Noun_chunk}"
    by (simp add: demo_entity_def)
  have g: "high_priority_gaps
        (identify_knowledge_gaps demo_mapping
           (prioritize_knowledge_points
              (extract_knowledge_points demo_nlp (Some demo_model) demo_document)
              demo_hash_results))
       = [\<lparr>gap_index = 0, gap_text = ''Orders  ship by rail'', gap_type = ''LLM_EXTRACTED'',
            gap_priority = ''high''\<rparr>]"
    by code_simp
  from basic_points_never_high[of demo_nlp "Some demo_model" demo_document demo_hash_results
         demo_mapping] m s
  have "priority (demo_entity\<lparr>priority := Some ''normal''\<rparr>) = Some ''normal''"
    by blast
  with m s g show ?thesis by simp
qed



lemma demo_qa_knowledge_points:
  "qa_knowledge_points demo_mapping = [((0, 0), [2])]"
  by code_simp

theorem mapping_entry_iff_similar_witness:
  "0 < length demo_qa_data \<and> 0 < length (get_qa_pairs (demo_qa_data ! 0))
   \<and> 2 < length demo_prioritized \<and> 0 < length demo_prioritized
   \<and> (0, 0) \<in> qa_id ` set (dd_get (knowledge_coverage demo_mapping) 2)
   \<and> 2 \<in> set (dd_get (qa_knowledge_points demo_mapping) (0, 0))
   \<and> 1 / 2 < text_similarity exact_similarity (qa_text (get_qa_pairs (demo_qa_data ! 0) ! 0))
               (kp_text (demo_prioritized ! 2))
   \<and> (0, 0) \<notin> qa_id ` set (dd_get (knowledge_coverage demo_mapping) 0)
   \<and> 0 \<notin> set (dd_get (qa_knowledge_points demo_mapping) (0, 0))
   \<and> \<not> 1 / 2 < text_similarity exact_similarity (qa_text (get_qa_pairs (demo_qa_data ! 0) ! 0))
               (kp_text (demo_prioritized ! 0))"
proof -
  have t: "0 < length demo_qa_data" by (simp add: demo_qa_data_def)
  have q: "0 < length (get_qa_pairs (demo_qa_data ! 0))"
    by (simp add: demo_qa_data_def get_qa_pairs_def)
  have k2: "2 < length demo_prioritized" and k0: "0 < length demo_prioritized"
    by (simp_all add: demo_prioritized_def)
  have s2: "1 / 2 < text_similarity exact_similarity
                      (qa_text (get_qa_pairs (demo_qa_data ! 0) ! 0))
                      (kp_text (demo_prioritized ! 2))"
    by code_simp
  have s0: "\<not> 1 / 2 < text_similarity exact_similarity
                      (qa_text (get_qa_pairs (demo_qa_data ! 0) ! 0))
                      (kp_text (demo_prioritized ! 0))"
    by code_simp
  from mapping_entry_iff_similar[OF t q k2, of exact_similarity] s2
  have a: "(0, 0) \<in> qa_id ` set (dd_get (knowledge_coverage demo_mapping) 2)"
    and b: "2 \<in> set (dd_get (qa_knowledge_points demo_mapping) (0, 0))"
    unfolding demo_mapping_def by blast+
  from mapping_entry_iff_similar[OF t q k0, of exact_similarity] s0
  have c: "(0, 0) \<notin> qa_id ` set (dd_get (knowledge_coverage demo_mapping) 0)"
    and d: "0 \<notin> set (dd_get (qa_knowledge_points demo_mapping) (0, 0))"
    unfolding demo_mapping_def by blast+
  from t q k2 k0 a b s2 c d s0 show ?thesis by blast
qed

theorem weighted_coverage_rates_witness:
  "distinct (map fst (knowledge_coverage demo_mapping))
   \<and> fst ` set (knowledge_coverage demo_mapping) \<subseteq> {..<length demo_prioritized}
   \<and> simple_coverage (calculate_weighted_coverage demo_mapping demo_prioritized) = 1 / 3
   \<and> weighted_coverage (calculate_weighted_coverage demo_mapping demo_prioritized) = 2 / 7"
proof -
  have d: "distinct (map fst (knowledge_coverage demo_mapping))"
    by (simp add: demo_knowledge_coverage)
  have r: "fst ` set (knowledge_coverage demo_mapping) \<subseteq> {..<length demo_prioritized}"
    by (simp add: demo_knowledge_coverage demo_prioritized_def)
  have s: "(if demo_prioritized = [] then 0
            else of_nat (card (fst ` set (knowledge_coverage demo_mapping)))
                 / of_nat (length demo_prioritized)) = (1 / 3 :: rat)"
    by (simp add: demo_knowledge_coverage demo_prioritized_def)
  have w: "(if demo_prioritized = [] then 0
            else (\<Sum>k \<in> fst ` set (knowledge_coverage demo_mapping). point_weight (demo_prioritized ! k))
                 / (\<Sum>i < length demo_prioritized. point_weight (demo_prioritized ! i))) = (2 / 7 :: rat)"
    by (simp add: demo_knowledge_coverage demo_prioritized_def point_weight_def
          demo_extracted_def demo_entity_def demo_chunk_def lessThan_Suc numeral_3_eq_3)
  from weighted_coverage_rates[OF d r] s w d r show ?thesis by simp
qed







text \<open>
  With the example document, QA data whose only QA pair has no question are evaluated
  without an error, and so are no QA data at all, with the rates 0.
\<close>

theorem input_errors_counterexample:
  "\<not> isl (hash_based_evaluation demo_sketch word_cut demo_document demo_qa_data_partial (3 / 10))
   \<and> \<not> isl (hash_based_evaluation demo_sketch word_cut demo_document [] (3 / 10))
   \<and> hr_coverage_rate
        (fst (projr (hash_based_evaluation demo_sketch word_cut demo_document [] (3 / 10)))) = 0
   \<and> hr_qa_match_rate
        (fst (projr (hash_based_evaluation demo_sketch word_cut demo_document [] (3 / 10)))) = 0"
proof -
  have s: "split_document demo_document 50 \<noteq> []" by (simp add: demo_split)
  from hash_based_evaluation_returns[OF s, of demo_sketch word_cut demo_qa_data_partial "3 / 10"]
  have a: "\<not> isl (hash_based_evaluation demo_sketch word_cut demo_document
                     demo_qa_data_partial (3 / 10))"
    by auto
  from hash_based_evaluation_no_qa[OF s, of demo_sketch word_cut "3 / 10"]
  obtain hr stats where
    e: "hash_based_evaluation demo_sketch word_cut demo_document [] (3 / 10)
          = Inr (hr, split_document demo_document 50, stats)"
    and z: "hr_coverage_rate hr = 0" "hr_qa_match_rate hr = 0"
    by blast
  from e z a show ?thesis by simp
qed

theorem no_input_validation_witness:
  "split_document demo_document 50 \<noteq> []
   \<and> \<not> isl (hash_based_evaluation demo_sketch word_cut demo_document demo_qa_data_partial (3 / 10))
   \<and> qh_question (hd (compute_qa_minhash demo_sketch word_cut demo_qa_data_partial 128)) = []
   \<and> qh_answer (hd (compute_qa_minhash demo_sketch word_cut demo_qa_data_partial 128)) = ''weekly''"
proof -
  have s: "split_document demo_document 50 \<noteq> []" by (simp add: demo_split)
  note T = no_input_validation[OF s, of demo_sketch word_cut demo_qa_data_partial "3 / 10"
             "''weekly''" "[]" "Some ''stock''" 128]
  from conjunct1[OF T]
  have a: "\<not> isl (hash_based_evaluation demo_sketch word_cut demo_document
                     demo_qa_data_partial (3 / 10))"
    by auto
  note T6 = conjunct2[OF conjunct2[OF conjunct2[OF conjunct2[OF conjunct2[OF T]]]]]
  from T6 have b: "qh_question (hd (compute_qa_minhash demo_sketch word_cut
                                      demo_qa_data_partial 128)) = []"
    and c: "qh_answer (hd (compute_qa_minhash demo_sketch word_cut
                             demo_qa_data_partial 128)) = ''weekly''"
    by (simp_all add: demo_qa_data_partial_def)
  from s a b c show ?thesis by (intro conjI)
qed



end
